theory Spec2Isabelle
  imports Main "HOL-Library.Dlist"
begin

section \<open>FoliateViewer.tsx: the data of the component\<close>

text \<open>
  The component \<^verbatim>\<open>FoliateViewer\<close> is embedded function by function. Everything it
  does to the outside (the widget, the console, the stores, the external helpers) is
  written to a chronological list of actions, so that a statement such as "exactly one
  call" or "only after" is a statement about that list.

  A JavaScript number is a value of the type parameter \<open>'n\<close>, of which nothing is
  assumed: it stands for the doubles, with their infinities, zeros and NaN. Two numbers
  are equal when \<^verbatim>\<open>Object.is\<close> holds of them. What the language does with numbers is
  a parameter too (\<open>jsNumber\<close> below), so that nothing proved here depends on how
  doubles are added, rounded or printed.

  JavaScript values that the component only compares or passes on are values of
  \<open>jsval\<close>; an object is a reference, compared by identity as \<^verbatim>\<open>===\<close> and
  \<^verbatim>\<open>Object.is\<close> do.
\<close>

datatype 'n jsval = Undefined | Null | Bool bool | Num 'n | Str string | Ref nat

text \<open>
  The language's operations on numbers that the component uses: \<^verbatim>\<open>a + b\<close> (line
  253), the string a template literal or \<^verbatim>\<open>setAttribute\<close> makes of a number (lines
  229 to 231, 253, 254), whether a number is truthy (lines 185, 186), and the number
  written \<^verbatim>\<open>0\<close> (line 238).
\<close>

record 'n jsNumber =
  js_add :: "'n \<Rightarrow> 'n \<Rightarrow> 'n"
  js_toString :: "'n \<Rightarrow> string"
  js_truthy :: "'n \<Rightarrow> bool"
  js_zero :: 'n

text \<open>JavaScript truthiness, as \<^verbatim>\<open>if (x)\<close>, \<^verbatim>\<open>x || y\<close> and \<^verbatim>\<open>x && y\<close> read it.\<close>

fun truthy :: "'n jsNumber \<Rightarrow> 'n jsval \<Rightarrow> bool" where
  "truthy j Undefined = False"
| "truthy j Null = False"
| "truthy j (Bool b) = b"
| "truthy j (Num n) = js_truthy j n"
| "truthy j (Str s) = (s \<noteq> [])"
| "truthy j (Ref r) = True"

text \<open>What a \<^verbatim>\<open>throw\<close> or a rejected promise carries.\<close>

datatype 'n exn = TypeError | Thrown "'n jsval"

text \<open>The fields of \<^verbatim>\<open>ViewSettings\<close> that the component reads.\<close>

record 'n viewSettings =
  writingMode :: string
  allowScript :: "bool option"
  animated :: bool
  maxColumnCount :: 'n
  maxBlockSize :: 'n
  screenOrientation :: string
  showHeader :: bool
  showFooter :: bool
  marginPx :: 'n
  compactMarginPx :: 'n
  gapPercent :: 'n
  compactGapPercent :: 'n
  scrolled :: bool

text \<open>The prop \<^verbatim>\<open>padding: { top, right, bottom, left }\<close> (line 41).\<close>

record 'n padding =
  pad_top :: 'n
  pad_right :: 'n
  pad_bottom :: 'n
  pad_left :: 'n

text \<open>
  A renderer, as far as the component can tell two renderers apart: whether it has the
  methods that the component calls with \<^verbatim>\<open>?.(\<close> (\<^verbatim>\<open>setStyles?.\<close> on lines 214
  and 263, \<^verbatim>\<open>goTo?.\<close> on line 155).
\<close>

record renderer =
  has_setStyles :: bool
  has_goTo :: bool

text \<open>The \<^verbatim>\<open>ctx\<close> object of lines 88 to 93.\<close>

record 'n transformCtx =
  ctx_bookKey :: string
  ctx_viewSettings :: "'n viewSettings"
  content :: string
  transformers :: "string list"

text \<open>
  The \<^verbatim>\<open>detail\<close> of a \<^verbatim>\<open>data\<close> event (line 81). \<^verbatim>\<open>detail.data\<close> is
  awaited with \<^verbatim>\<open>Promise.resolve\<close>: it is a content (\<open>Inr\<close>) or something that
  rejects (\<open>Inl\<close>).
\<close>

record 'n dataDetail =
  data :: "'n exn + string"
  type :: string
  name :: string

text \<open>The \<^verbatim>\<open>detail\<close> of a \<^verbatim>\<open>relocate\<close> event, the six fields read on lines 70 to 75.\<close>

record 'n progressDetail =
  cfi :: "'n jsval"
  tocItem :: "'n jsval"
  section_d :: "'n jsval"
  location :: "'n jsval"
  time :: "'n jsval"
  range_d :: "'n jsval"

text \<open>The \<^verbatim>\<open>detail\<close> of a renderer's \<^verbatim>\<open>relocate\<close> event (lines 147 and 155).\<close>

record 'n relocateDetail =
  reason :: "'n jsval"
  index :: "'n jsval"
  fraction :: "'n jsval"

text \<open>
  The helpers imported from other modules, which are not part of this file. The two
  transforms may throw or reject, and so may \<^verbatim>\<open>getStyles\<close>, which is handed
  whatever \<^verbatim>\<open>getViewSettings(bookKey)!\<close> returned.
\<close>

record 'n externals =
  transformStylesheet :: "'n viewSettings \<Rightarrow> 'n \<Rightarrow> 'n \<Rightarrow> string \<Rightarrow> 'n exn + string"
  transformContent :: "'n transformCtx \<Rightarrow> 'n exn + string"
  getStyles :: "'n viewSettings option \<Rightarrow> 'n exn + string"
  getMaxInlineSize :: "'n viewSettings \<Rightarrow> 'n"
  getBookDirFromWritingMode :: "string \<Rightarrow> string"
  getBookDirFromLanguage :: "'n jsval \<Rightarrow> string"

text \<open>
  What the component does to the outside. A widget (a \<^verbatim>\<open>foliate-view\<close> element) is
  named by a reference; an action on \<^verbatim>\<open>view.renderer\<close> names the view.
  \<open>GoTo k v i a\<close> is \<^verbatim>\<open>getView(k)?.renderer.goTo?.({ index: i, anchor: a })\<close>
  where \<open>v\<close> is the view found under \<open>k\<close>. \<open>AddDataListener v w h\<close> is line 213:
  the listener \<^verbatim>\<open>getDocTransformHandler({ width: w, height: h })\<close> is added to the
  transform target of the book of \<open>v\<close>.
\<close>

datatype 'n action =
    ConsoleLog "'n jsval list"
  | ConsoleError string "'n exn"
  | ImportViewModule
  | CreateElement nat
  | SetId nat string
  | AppendToBody nat
  | AppendToContainer nat
  | OpenCalled nat
  | OpenResolved nat
  | SetViewRef nat
  | SetFoliateView string nat
  | AddLoadListener nat bool
  | AddDataListener nat 'n 'n
  | CallGetStyles "'n viewSettings option"
  | SetStyles nat string
  | LockScreenOrientation string
  | SetAttribute nat string string
  | RemoveAttribute nat string
  | Init nat "'n jsval"
  | GoToFraction nat 'n
  | GoTo string nat "'n jsval" "'n jsval"
  | SetProgress string "'n jsval" "'n jsval" "'n jsval" "'n jsval" "'n jsval" "'n jsval"
  | CallTransformStylesheet "'n viewSettings" 'n 'n string
  | CallTransformContent "'n transformCtx"
  | UnhandledRejection "'n exn"

text \<open>
  What is fixed for one component instance: the props and hook values that the mount
  effect closes over (its dependency list is empty, so it keeps the first render's), and
  what the widget answers. \<open>bookRenderer\<close> is the renderer the widget has once
  \<^verbatim>\<open>open\<close> has resolved.
\<close>

record 'n env =
  bookKey :: string
  language :: "'n jsval"
  lastLocation :: "'n jsval"
  mount_padding :: "'n padding"
  isMobileApp :: bool
  hasTransformTarget :: bool
  bookRenderer :: renderer

text \<open>
  A call of \<^verbatim>\<open>openBook\<close> that is suspended at one of its four \<^verbatim>\<open>await\<close>s
  (lines 178, 200, 222, 236/238), with the local constants it still needs.
\<close>

datatype 'n task =
    AwaitImport
  | AwaitOpen nat 'n 'n "'n viewSettings"
  | AwaitLock nat "'n viewSettings" 'n
  | AwaitNav nat

text \<open>
  The refs of the component (\<open>isViewCreated\<close>, \<open>viewRef\<close>), its suspended calls of
  \<^verbatim>\<open>openBook\<close>, the stores it reads and writes, \<^verbatim>\<open>bookDoc.dir\<close>, the layout of
  the page, and the actions so far. \<open>renderers\<close> gives the renderer of a widget that
  has one. \<open>containerRect\<close> is the width and height that
  \<^verbatim>\<open>containerRef.current.getBoundingClientRect()\<close> would return now, and \<open>None\<close>
  when \<^verbatim>\<open>containerRef.current\<close> is null; \<open>innerWidth\<close> and \<open>innerHeight\<close> are
  those of the window now.
\<close>

record 'n state =
  isViewCreated :: bool
  viewRef :: "nat option"
  tasks :: "'n task list"
  nextRef :: nat
  renderers :: "nat \<rightharpoonup> renderer"
  views :: "string \<rightharpoonup> nat"
  settingsStore :: "string \<rightharpoonup> 'n viewSettings"
  parallels :: "string \<rightharpoonup> string dlist"
  bookDoc_dir :: "string option"
  containerRect :: "('n \<times> 'n) option"
  innerWidth :: 'n
  innerHeight :: 'n
  trace :: "'n action list"

definition emit :: "'n action list \<Rightarrow> 'n state \<Rightarrow> 'n state" where
  "emit acts s = s\<lparr>trace := trace s @ acts\<rparr>"

section \<open>The handlers\<close>

text \<open>\<^verbatim>\<open>progressRelocateHandler\<close>, lines 66 to 77.\<close>

definition progressRelocateHandler :: "string \<Rightarrow> 'n progressDetail \<Rightarrow> 'n action list" where
  "progressRelocateHandler key detail =
     [SetProgress key (cfi detail) (tocItem detail) (section_d detail) (location detail)
        (time detail) (range_d detail)]"

text \<open>The relocate events of a view, handled one after the other.\<close>

definition onRelocate :: "string \<Rightarrow> 'n progressDetail list \<Rightarrow> 'n state \<Rightarrow> 'n state" where
  "onRelocate key details s = fold (\<lambda>d. emit (progressRelocateHandler key d)) details s"

text \<open>
  The callback given to \<^verbatim>\<open>.then\<close>, lines 83 to 97: the calls it makes and what it
  returns. \<open>vso\<close> is what \<^verbatim>\<open>getViewSettings(bookKey)\<close> returns when the callback
  runs.
\<close>

definition transformData ::
  "'n externals \<Rightarrow> string \<Rightarrow> 'n \<Rightarrow> 'n \<Rightarrow> 'n viewSettings option \<Rightarrow> string \<Rightarrow> string
    \<Rightarrow> 'n action list \<times> ('n exn + string)" where
  "transformData x key width height vso ty dat =
     (case vso of
        None \<Rightarrow> ([], Inr dat)
      | Some vs \<Rightarrow>
          if ty = ''text/css''
          then ([CallTransformStylesheet vs width height dat],
                transformStylesheet x vs width height dat)
          else if ty = ''application/xhtml+xml''
          then (let ctx = \<lparr>ctx_bookKey = key, ctx_viewSettings = vs, content = dat,
                             transformers = [''punctuation'', ''footnote'']\<rparr>
                in ([CallTransformContent ctx], transformContent x ctx))
          else ([], Inr dat))"

text \<open>
  The listener that \<^verbatim>\<open>getDocTransformHandler({ width, height })\<close> returns, lines 79 to
  103, with its promise chain run to the end: the actions, and the detail whose
  \<^verbatim>\<open>data\<close> is what the chain settles to. The \<^verbatim>\<open>.catch\<close> handles a rejection of
  the payload itself as well as one of the \<^verbatim>\<open>.then\<close> callback.
\<close>

definition getDocTransformHandler ::
  "'n externals \<Rightarrow> string \<Rightarrow> 'n \<Rightarrow> 'n \<Rightarrow> (string \<rightharpoonup> 'n viewSettings) \<Rightarrow> 'n dataDetail
    \<Rightarrow> 'n action list \<times> 'n dataDetail" where
  "getDocTransformHandler x key width height getViewSettings detail =
     (case data detail of
        Inl e \<Rightarrow>
          ([ConsoleError (''Failed to load '' @ name detail) e], detail\<lparr>data := Inr ''''\<rparr>)
      | Inr dat \<Rightarrow>
          (case transformData x key width height (getViewSettings key) (type detail) dat of
             (calls, Inl e) \<Rightarrow>
               (calls @ [ConsoleError (''Failed to load '' @ name detail) e],
                detail\<lparr>data := Inr ''''\<rparr>)
           | (calls, Inr r) \<Rightarrow> (calls, detail\<lparr>data := Inr r\<rparr>)))"

text \<open>
  \<^verbatim>\<open>docRelocateHandler\<close>, lines 145 to 160. \<^verbatim>\<open>getParallels\<close> returns a
  \<^verbatim>\<open>Set\<close>, which \<^verbatim>\<open>forEach\<close> walks in insertion order: a list without
  duplicates.
\<close>

definition docRelocateHandler ::
  "string \<Rightarrow> 'n state \<Rightarrow> 'n relocateDetail \<Rightarrow> 'n action list" where
  "docRelocateHandler key s detail =
     (if reason detail \<noteq> Str ''scroll'' \<and> reason detail \<noteq> Str ''page'' then []
      else
        case parallels s key of
          None \<Rightarrow> []
        | Some parallelViews \<Rightarrow>
            if Dlist.length parallelViews > 0
            then concat (map
              (\<lambda>k. if k \<noteq> key
                   then (case views s k of
                           None \<Rightarrow> []
                         | Some v \<Rightarrow>
                             (case renderers s v of
                                None \<Rightarrow> []
                              | Some target \<Rightarrow>
                                  if has_goTo target
                                  then [GoTo k v (index detail) (fraction detail)]
                                  else []))
                   else [])
              (list_of_dlist parallelViews))
            else [])"

fun isTransformCall :: "'n action \<Rightarrow> bool" where
  "isTransformCall (CallTransformStylesheet vs w h d) = True"
| "isTransformCall (CallTransformContent ctx) = True"
| "isTransformCall _ = False"

text \<open>The goTo calls made on the view of member \<open>k\<close>.\<close>

fun isGoToOf :: "string \<Rightarrow> 'n action \<Rightarrow> bool" where
  "isGoToOf k (GoTo k' v i a) = (k' = k)"
| "isGoToOf k _ = False"

section \<open>Styles, margin and gap\<close>

text \<open>
  \<^verbatim>\<open>renderer.setStyles?.(getStyles(viewSettings))\<close>, lines 214 and 263: without the
  method nothing is evaluated; the second component is what is thrown.
\<close>

definition applyStyles ::
  "'n externals \<Rightarrow> nat \<Rightarrow> renderer \<Rightarrow> 'n viewSettings option
    \<Rightarrow> 'n action list \<times> 'n exn option" where
  "applyStyles x view rend vso =
     (if has_setStyles rend
      then (case getStyles x vso of
              Inl e \<Rightarrow> ([CallGetStyles vso], Some e)
            | Inr css \<Rightarrow> ([CallGetStyles vso, SetStyles view css], None))
      else ([], None))"

text \<open>
  \<^verbatim>\<open>applyMarginAndGap\<close>, lines 246 to 258, with the \<^verbatim>\<open>padding\<close> of the render
  whose closure it is. Reading a field of a missing settings entry, or the
  \<^verbatim>\<open>setAttribute\<close> of a missing renderer, throws; a null \<^verbatim>\<open>viewRef.current\<close>
  ends each of the three \<^verbatim>\<open>?.\<close> chains. The sum and the two strings are the
  language's.
\<close>

definition applyMarginAndGap ::
  "'n jsNumber \<Rightarrow> string \<Rightarrow> 'n padding \<Rightarrow> 'n state \<Rightarrow> 'n action list \<times> 'n exn option" where
  "applyMarginAndGap j key pad s =
     (case settingsStore s key of
        None \<Rightarrow> ([], Some TypeError)
      | Some vs \<Rightarrow>
          (let isCompact = (\<not> showHeader vs \<and> \<not> showFooter vs);
               margin = (if isCompact then compactMarginPx vs else marginPx vs);
               gap = (if isCompact then compactGapPercent vs else gapPercent vs)
           in case viewRef s of
                None \<Rightarrow> ([], None)
              | Some v \<Rightarrow>
                  (case renderers s v of
                     None \<Rightarrow> ([], Some TypeError)
                   | Some rend \<Rightarrow>
                       ([SetAttribute v ''margin''
                           (js_toString j (js_add j margin (pad_top pad)) @ ''px''),
                         SetAttribute v ''gap'' (js_toString j gap @ ''%'')]
                        @ (if scrolled vs then [SetAttribute v ''flow'' ''scrolled''] else []),
                        None))))"

text \<open>
  What one render captures (lines 41, 48, 49) and what the two dependency lists of lines
  266 and 273 to 284 hold for it; \<^verbatim>\<open>viewSettings?.showHeader\<close> is undefined without
  settings.
\<close>

record 'n renderSnap =
  padding_r :: "'n padding"
  themeCode :: "'n jsval"
  isDarkMode :: bool
  viewSettings_r :: "'n viewSettings option"

definition styleDeps :: "'n renderSnap \<Rightarrow> 'n jsval list" where
  "styleDeps r = [themeCode r, Bool (isDarkMode r)]"

definition marginDeps :: "'n renderSnap \<Rightarrow> 'n jsval list" where
  "marginDeps r =
     [Num (pad_top (padding_r r)), Num (pad_right (padding_r r)),
      Num (pad_bottom (padding_r r)), Num (pad_left (padding_r r)),
      (case viewSettings_r r of None \<Rightarrow> Undefined | Some vs \<Rightarrow> Bool (showHeader vs)),
      (case viewSettings_r r of None \<Rightarrow> Undefined | Some vs \<Rightarrow> Bool (showFooter vs)),
      (case viewSettings_r r of None \<Rightarrow> Undefined | Some vs \<Rightarrow> Num (marginPx vs)),
      (case viewSettings_r r of None \<Rightarrow> Undefined | Some vs \<Rightarrow> Num (compactMarginPx vs)),
      (case viewSettings_r r of None \<Rightarrow> Undefined | Some vs \<Rightarrow> Num (gapPercent vs)),
      (case viewSettings_r r of None \<Rightarrow> Undefined | Some vs \<Rightarrow> Num (compactGapPercent vs))]"

text \<open>The six settings in the dependency list of lines 278 to 283.\<close>

definition layoutFields :: "'n viewSettings \<Rightarrow> bool \<times> bool \<times> 'n \<times> 'n \<times> 'n \<times> 'n" where
  "layoutFields vs =
     (showHeader vs, showFooter vs, marginPx vs, compactMarginPx vs, gapPercent vs,
      compactGapPercent vs)"

text \<open>The effect of lines 260 to 266.\<close>

definition styleEffect ::
  "'n externals \<Rightarrow> string \<Rightarrow> 'n state \<Rightarrow> 'n action list \<times> 'n exn option" where
  "styleEffect x key s =
     (case viewRef s of
        None \<Rightarrow> ([], None)
      | Some v \<Rightarrow>
          (case renderers s v of
             None \<Rightarrow> ([], None)
           | Some rend \<Rightarrow> applyStyles x v rend (settingsStore s key)))"

text \<open>The effect of lines 268 to 284.\<close>

definition marginEffect ::
  "'n jsNumber \<Rightarrow> string \<Rightarrow> 'n renderSnap \<Rightarrow> 'n state \<Rightarrow> 'n action list \<times> 'n exn option" where
  "marginEffect j key r s =
     (case viewRef s of
        None \<Rightarrow> ([], None)
      | Some v \<Rightarrow>
          (case renderers s v of
             None \<Rightarrow> ([], None)
           | Some rend \<Rightarrow>
               (case viewSettings_r r of
                  None \<Rightarrow> ([], None)
                | Some vs \<Rightarrow> applyMarginAndGap j key (padding_r r) s)))"

text \<open>
  The effects of an update, from the render \<open>prev\<close> to the render \<open>cur\<close>: an effect
  runs when its dependency list differs from the previous render's, in the order of the
  source; an effect that throws ends the pass. The mount effect has an empty list and
  runs on no update.
\<close>

definition commitEffects ::
  "'n jsNumber \<Rightarrow> 'n externals \<Rightarrow> string \<Rightarrow> 'n renderSnap \<Rightarrow> 'n renderSnap \<Rightarrow> 'n state
    \<Rightarrow> 'n action list \<times> 'n exn option" where
  "commitEffects j x key prev cur s =
     (case (if styleDeps prev \<noteq> styleDeps cur then styleEffect x key s else ([], None)) of
        (acts, Some e) \<Rightarrow> (acts, Some e)
      | (acts, None) \<Rightarrow>
          (case (if marginDeps prev \<noteq> marginDeps cur then marginEffect j key cur s
                 else ([], None)) of
             (acts', r) \<Rightarrow> (acts @ acts', r)))"

fun isStyleAction :: "'n action \<Rightarrow> bool" where
  "isStyleAction (CallGetStyles vso) = True"
| "isStyleAction (SetStyles v css) = True"
| "isStyleAction _ = False"

fun isMarginGapWrite :: "'n action \<Rightarrow> bool" where
  "isMarginGapWrite (SetAttribute v n val) = (n = ''margin'' \<or> n = ''gap'' \<or> n = ''flow'')"
| "isMarginGapWrite _ = False"

section \<open>The mount effect and openBook\<close>

text \<open>\<^verbatim>\<open>rect?.width || window.innerWidth\<close>, lines 185 and 186.\<close>

definition orElse :: "'n jsNumber \<Rightarrow> 'n option \<Rightarrow> 'n \<Rightarrow> 'n" where
  "orElse j measured fallback =
     (case measured of None \<Rightarrow> fallback | Some n \<Rightarrow> if js_truthy j n then n else fallback)"

text \<open>
  The mount effect, lines 172 to 244: the latch, then the call of \<^verbatim>\<open>openBook\<close>, which
  runs to its first \<^verbatim>\<open>await\<close> (line 178).
\<close>

definition mountEffect :: "'n env \<Rightarrow> 'n state \<Rightarrow> 'n state" where
  "mountEffect e s =
     (if isViewCreated s then s
      else emit [ConsoleLog [Str ''Opening book'', Str (bookKey e)], ImportViewModule]
             (s\<lparr>isViewCreated := True, tasks := tasks s @ [AwaitImport]\<rparr>))"

text \<open>
  \<^verbatim>\<open>openBook\<close> from line 179 to the \<^verbatim>\<open>await\<close> of line 200. The width and the
  height are measured here, in the layout of the page at this moment, and go on as
  local constants of the call.
\<close>

definition afterImport ::
  "'n jsNumber \<Rightarrow> 'n externals \<Rightarrow> 'n env \<Rightarrow> 'n state \<Rightarrow> 'n task option \<times> 'n state" where
  "afterImport j x e s =
     (let view = nextRef s;
          s1 = emit ([CreateElement view, SetId view (''foliate-view-'' @ bookKey e),
                      AppendToBody view]
                     @ (if containerRect s \<noteq> None then [AppendToContainer view] else []))
                 (s\<lparr>nextRef := Suc view\<rparr>);
          width = orElse j (map_option fst (containerRect s)) (innerWidth s);
          height = orElse j (map_option snd (containerRect s)) (innerHeight s)
      in case settingsStore s1 (bookKey e) of
           None \<Rightarrow> (None, emit [UnhandledRejection TypeError] s1)
         | Some vs \<Rightarrow>
             (let s2 =
                (if writingMode vs \<noteq> []
                 then (let settingsDir = getBookDirFromWritingMode x (writingMode vs);
                           languageDir = getBookDirFromLanguage x (language e)
                       in if settingsDir \<noteq> ''auto'' then s1\<lparr>bookDoc_dir := Some settingsDir\<rparr>
                          else if languageDir \<noteq> ''auto''
                          then s1\<lparr>bookDoc_dir := Some languageDir\<rparr>
                          else s1)
                 else s1)
              in (Some (AwaitOpen view width height vs), emit [OpenCalled view] s2)))"

text \<open>\<^verbatim>\<open>openBook\<close> from line 224 to the \<^verbatim>\<open>await\<close> of line 236 or 238.\<close>

definition afterLock ::
  "'n jsNumber \<Rightarrow> 'n env \<Rightarrow> nat \<Rightarrow> 'n viewSettings \<Rightarrow> 'n \<Rightarrow> 'n state
    \<Rightarrow> 'n task option \<times> 'n state" where
  "afterLock j e view vs maxInlineSize s =
     (let s1 = emit [if animated vs then SetAttribute view ''animated'' ''''
                     else RemoveAttribute view ''animated'',
                     SetAttribute view ''max-column-count'' (js_toString j (maxColumnCount vs)),
                     SetAttribute view ''max-inline-size''
                       (js_toString j maxInlineSize @ ''px''),
                     SetAttribute view ''max-block-size''
                       (js_toString j (maxBlockSize vs) @ ''px'')] s
      in case applyMarginAndGap j (bookKey e) (mount_padding e) s1 of
           (acts, Some ex) \<Rightarrow> (None, emit (acts @ [UnhandledRejection ex]) s1)
         | (acts, None) \<Rightarrow>
             (Some (AwaitNav view),
              emit (acts @ [if truthy j (lastLocation e) then Init view (lastLocation e)
                            else GoToFraction view (js_zero j)]) s1))"

text \<open>
  \<^verbatim>\<open>openBook\<close> from the moment \<^verbatim>\<open>view.open(bookDoc)\<close> has resolved (line 200) to
  the \<^verbatim>\<open>await\<close> of line 222, or further when the host is not a mobile app. The
  widget then has its renderer.
\<close>

definition afterOpen ::
  "'n jsNumber \<Rightarrow> 'n externals \<Rightarrow> 'n env \<Rightarrow> nat \<Rightarrow> 'n \<Rightarrow> 'n \<Rightarrow> 'n viewSettings \<Rightarrow> 'n state
    \<Rightarrow> 'n task option \<times> 'n state" where
  "afterOpen j x e view width height vs s =
     (let s1 = emit [OpenResolved view] (s\<lparr>renderers := (renderers s)(view \<mapsto> bookRenderer e)\<rparr>);
          s2 = emit [SetViewRef view, SetFoliateView (bookKey e) view]
                 (s1\<lparr>viewRef := Some view, views := (views s1)(bookKey e \<mapsto> view)\<rparr>);
          s3 = emit (if hasTransformTarget e
                     then [AddLoadListener view (case allowScript vs of None \<Rightarrow> False | Some b \<Rightarrow> b),
                           AddDataListener view width height]
                     else []) s2
      in case applyStyles x view (bookRenderer e) (Some vs) of
           (acts, Some ex) \<Rightarrow> (None, emit (acts @ [UnhandledRejection ex]) s3)
         | (acts, None) \<Rightarrow>
             (let maxInlineSize = getMaxInlineSize x vs
              in if isMobileApp e
                 then (Some (AwaitLock view vs maxInlineSize),
                       emit (acts @ [LockScreenOrientation (screenOrientation vs)]) s3)
                 else afterLock j e view vs maxInlineSize (emit acts s3)))"

text \<open>A suspended call goes on when the promise it awaits is fulfilled.\<close>

fun resume ::
  "'n jsNumber \<Rightarrow> 'n externals \<Rightarrow> 'n env \<Rightarrow> 'n task \<Rightarrow> 'n state \<Rightarrow> 'n task option \<times> 'n state" where
  "resume j x e AwaitImport s = afterImport j x e s"
| "resume j x e (AwaitOpen view width height vs) s = afterOpen j x e view width height vs s"
| "resume j x e (AwaitLock view vs maxInlineSize) s = afterLock j e view vs maxInlineSize s"
| "resume j x e (AwaitNav view) s = (None, s)"

text \<open>
  What can happen to a mounted component: React runs the mount effect (again); the
  promise awaited by the \<open>i\<close>-th suspended call settles; somebody writes the settings
  store; the layout of the page changes (the container is resized, attached or detached,
  the window is resized). A rejection ends the call, nothing in \<^verbatim>\<open>openBook\<close>
  catches it.
\<close>

datatype 'n settled = Fulfilled | Rejected "'n exn"

datatype 'n event =
    MountEffect
  | Settle nat "'n settled"
  | SettingsWrite string "'n viewSettings option"
  | Layout "('n \<times> 'n) option" 'n 'n

definition dropTask :: "nat \<Rightarrow> 'n task list \<Rightarrow> 'n task list" where
  "dropTask i ts = take i ts @ drop (Suc i) ts"

definition step ::
  "'n jsNumber \<Rightarrow> 'n externals \<Rightarrow> 'n env \<Rightarrow> 'n event \<Rightarrow> 'n state \<Rightarrow> 'n state" where
  "step j x e ev s =
     (case ev of
        MountEffect \<Rightarrow> mountEffect e s
      | SettingsWrite k v \<Rightarrow> s\<lparr>settingsStore := (settingsStore s)(k := v)\<rparr>
      | Layout rect w h \<Rightarrow> s\<lparr>containerRect := rect, innerWidth := w, innerHeight := h\<rparr>
      | Settle i r \<Rightarrow>
          if i < length (tasks s)
          then (case r of
                  Rejected ex \<Rightarrow>
                    emit [UnhandledRejection ex] (s\<lparr>tasks := dropTask i (tasks s)\<rparr>)
                | Fulfilled \<Rightarrow>
                    (case resume j x e (tasks s ! i) s of
                       (None, s') \<Rightarrow> s'\<lparr>tasks := dropTask i (tasks s')\<rparr>
                     | (Some t, s') \<Rightarrow> s'\<lparr>tasks := (tasks s')[i := t]\<rparr>))
          else s)"

definition run ::
  "'n jsNumber \<Rightarrow> 'n externals \<Rightarrow> 'n env \<Rightarrow> 'n event list \<Rightarrow> 'n state \<Rightarrow> 'n state" where
  "run j x e evs s = fold (step j x e) evs s"

text \<open>
  A component instance that has just been mounted, in an application whose stores,
  widgets and layout are as given: its refs have their initial values and it has done
  nothing yet.
\<close>

definition mounted ::
  "nat \<Rightarrow> (nat \<rightharpoonup> renderer) \<Rightarrow> (string \<rightharpoonup> nat) \<Rightarrow> (string \<rightharpoonup> 'n viewSettings)
    \<Rightarrow> (string \<rightharpoonup> string dlist) \<Rightarrow> string option \<Rightarrow> ('n \<times> 'n) option \<Rightarrow> 'n \<Rightarrow> 'n
    \<Rightarrow> 'n state" where
  "mounted n rs vws sets pars dir rect iw ih =
     \<lparr>isViewCreated = False, viewRef = None, tasks = [], nextRef = n, renderers = rs,
      views = vws, settingsStore = sets, parallels = pars, bookDoc_dir = dir,
      containerRect = rect, innerWidth = iw, innerHeight = ih, trace = []\<rparr>"

fun isCreateElement :: "'n action \<Rightarrow> bool" where
  "isCreateElement (CreateElement v) = True"
| "isCreateElement _ = False"

fun isOpenBookStart :: "'n action \<Rightarrow> bool" where
  "isOpenBookStart ImportViewModule = True"
| "isOpenBookStart _ = False"

fun isOpenCalled :: "'n action \<Rightarrow> bool" where
  "isOpenCalled (OpenCalled v) = True"
| "isOpenCalled _ = False"

text \<open>
  A list of actions in which a view is assigned to \<^verbatim>\<open>viewRef.current\<close> or given to
  \<^verbatim>\<open>setFoliateView\<close> only when its \<^verbatim>\<open>open\<close> has resolved earlier in the list
  (or it is one of \<open>opened\<close>).
\<close>

fun publishedAfterOpen :: "nat set \<Rightarrow> 'n action list \<Rightarrow> bool" where
  "publishedAfterOpen opened [] = True"
| "publishedAfterOpen opened (OpenResolved v # as) = publishedAfterOpen (insert v opened) as"
| "publishedAfterOpen opened (SetViewRef v # as) = (v \<in> opened \<and> publishedAfterOpen opened as)"
| "publishedAfterOpen opened (SetFoliateView k v # as) =
     (v \<in> opened \<and> publishedAfterOpen opened as)"
| "publishedAfterOpen opened (a # as) = publishedAfterOpen opened as"

section \<open>Invariants of the mount effect and openBook\<close>

text \<open>
  The actions that construct, open and publish a view; every other action is made by a
  helper or is a write to the renderer.
\<close>

fun isLifecycle :: "'n action \<Rightarrow> bool" where
  "isLifecycle ImportViewModule = True"
| "isLifecycle (CreateElement v) = True"
| "isLifecycle (OpenCalled v) = True"
| "isLifecycle (OpenResolved v) = True"
| "isLifecycle (SetViewRef v) = True"
| "isLifecycle (SetFoliateView k v) = True"
| "isLifecycle _ = False"

text \<open>
  \<^verbatim>\<open>openBook\<close> has been started once if the latch is set and never otherwise; there
  are no more suspended calls than starts; an element has been created or is still to be
  created (a call suspended at the import) at most once per start; and \<^verbatim>\<open>open\<close> is
  called only on a created element.
\<close>

definition constructedOnce :: "'n state \<Rightarrow> bool" where
  "constructedOnce s \<longleftrightarrow>
     length (filter isOpenBookStart (trace s)) = (if isViewCreated s then 1 else 0)
     \<and> length (tasks s) \<le> length (filter isOpenBookStart (trace s))
     \<and> length (filter isCreateElement (trace s))
         + length (filter (\<lambda>t. t = AwaitImport) (tasks s))
        \<le> length (filter isOpenBookStart (trace s))
     \<and> length (filter isOpenCalled (trace s)) \<le> length (filter isCreateElement (trace s))"

text \<open>
  Views are published in order; \<^verbatim>\<open>viewRef.current\<close> is a view whose \<^verbatim>\<open>open\<close> has
  resolved; and an entry of the view registry is either the one that was there when the
  component was mounted (\<open>vws\<close>) or, under the book key, such a view.
\<close>

definition publishedOpened :: "(string \<rightharpoonup> nat) \<Rightarrow> string \<Rightarrow> 'n state \<Rightarrow> bool" where
  "publishedOpened vws key s \<longleftrightarrow>
     publishedAfterOpen {} (trace s)
     \<and> (\<forall>r. viewRef s = Some r \<longrightarrow> OpenResolved r \<in> set (trace s))
     \<and> (\<forall>k r. views s k = Some r \<longrightarrow>
           vws k = Some r \<or> (k = key \<and> OpenResolved r \<in> set (trace s)))"

text \<open>
  After the events \<open>evs\<close> from \<open>s0\<close>: \<open>w\<close> and \<open>h\<close> are the width and the height
  that the call of \<^verbatim>\<open>openBook\<close> which created the view \<open>v\<close> measured when it went
  on after the import (lines 184 to 186), in the layout of that moment; whatever
  happened since (\<open>evs2\<close>) has no part in them.
\<close>

definition measuredAtOpen ::
  "'n jsNumber \<Rightarrow> 'n externals \<Rightarrow> 'n env \<Rightarrow> 'n state \<Rightarrow> 'n event list \<Rightarrow> nat \<Rightarrow> 'n \<Rightarrow> 'n
    \<Rightarrow> bool" where
  "measuredAtOpen j x e s0 evs v w h \<longleftrightarrow>
     (\<exists>evs1 i evs2.
        evs = evs1 @ Settle i Fulfilled # evs2
        \<and> i < length (tasks (run j x e evs1 s0))
        \<and> tasks (run j x e evs1 s0) ! i = AwaitImport
        \<and> v = nextRef (run j x e evs1 s0)
        \<and> w = orElse j (map_option fst (containerRect (run j x e evs1 s0)))
                (innerWidth (run j x e evs1 s0))
        \<and> h = orElse j (map_option snd (containerRect (run j x e evs1 s0)))
                (innerHeight (run j x e evs1 s0)))"

text \<open>
  The sizes of every call suspended at \<^verbatim>\<open>open\<close> and of every data listener added so
  far are the ones measured when the view was created.
\<close>

definition sizesMeasured ::
  "'n jsNumber \<Rightarrow> 'n externals \<Rightarrow> 'n env \<Rightarrow> 'n state \<Rightarrow> 'n event list \<Rightarrow> 'n state \<Rightarrow> bool" where
  "sizesMeasured j x e s0 evs s \<longleftrightarrow>
     (\<forall>v w h vs. AwaitOpen v w h vs \<in> set (tasks s) \<longrightarrow> measuredAtOpen j x e s0 evs v w h)
     \<and> (\<forall>v w h. AddDataListener v w h \<in> set (trace s) \<longrightarrow> measuredAtOpen j x e s0 evs v w h)"

section \<open>Examples\<close>

text \<open>
  The examples use integers for numbers. On integers that are safe (below \<open>2^53\<close> in
  absolute value) JavaScript's addition is exact as long as the sum is safe, and a safe
  integer is printed as its decimal numeral; the numbers of the examples are small.
\<close>

fun decimal_nat :: "nat \<Rightarrow> string" where
  "decimal_nat n =
     (if n < 10 then [''0123456789'' ! n]
      else decimal_nat (n div 10) @ [''0123456789'' ! (n mod 10)])"

definition decimal :: "int \<Rightarrow> string" where
  "decimal n = (if n < 0 then CHR ''-'' # decimal_nat (nat (- n)) else decimal_nat (nat n))"

definition js0 :: "int jsNumber" where
  "js0 = \<lparr>js_add = (+), js_toString = decimal, js_truthy = (\<lambda>n. n \<noteq> 0), js_zero = 0\<rparr>"

definition settings0 :: "int viewSettings" where
  "settings0 =
     \<lparr>writingMode = ''vertical-rl'', allowScript = None, animated = True, maxColumnCount = 2,
      maxBlockSize = 1440, screenOrientation = ''auto'', showHeader = True,
      showFooter = False, marginPx = 44, compactMarginPx = 16, gapPercent = 5,
      compactGapPercent = 3, scrolled = True\<rparr>"

definition externals0 :: "int externals" where
  "externals0 =
     \<lparr>transformStylesheet = (\<lambda>vs w h css. Inr (css @ ''/*'' @ decimal w @ ''*/'')),
      transformContent = (\<lambda>ctx. Inl (Thrown (Str ''bad markup''))),
      getStyles = (\<lambda>vso. case vso of None \<Rightarrow> Inl TypeError | Some vs \<Rightarrow> Inr ''p{}''),
      getMaxInlineSize = (\<lambda>vs. 720),
      getBookDirFromWritingMode = (\<lambda>m. if m = ''vertical-rl'' then ''rtl'' else ''auto''),
      getBookDirFromLanguage = (\<lambda>l. if l = Str ''ar'' then ''rtl'' else ''auto'')\<rparr>"

text \<open>
  An application with four books side by side: the view of \<open>B\<close> has a full renderer,
  the view of \<open>C\<close> has no renderer yet, the renderer of \<open>D\<close> has no
  \<^verbatim>\<open>goTo\<close>. The view of \<open>A\<close> is the one of the component at hand.
\<close>

definition state0 :: "int state" where
  "state0 =
     \<lparr>isViewCreated = True, viewRef = Some 0, tasks = [], nextRef = 4,
      renderers = [0 \<mapsto> \<lparr>has_setStyles = True, has_goTo = True\<rparr>,
                   1 \<mapsto> \<lparr>has_setStyles = True, has_goTo = True\<rparr>,
                   3 \<mapsto> \<lparr>has_setStyles = False, has_goTo = False\<rparr>],
      views = [''A'' \<mapsto> 0, ''B'' \<mapsto> 1, ''C'' \<mapsto> 2, ''D'' \<mapsto> 3],
      settingsStore = [''A'' \<mapsto> settings0],
      parallels = [''A'' \<mapsto> Dlist [''A'', ''B'', ''C'', ''D'']],
      bookDoc_dir = None, containerRect = Some (800, 600), innerWidth = 1024,
      innerHeight = 768, trace = []\<rparr>"

definition env0 :: "int env" where
  "env0 =
     \<lparr>bookKey = ''A'', language = Str ''en'', lastLocation = Undefined,
      mount_padding = \<lparr>pad_top = 10, pad_right = 0, pad_bottom = 0, pad_left = 0\<rparr>,
      isMobileApp = False, hasTransformTarget = True,
      bookRenderer = \<lparr>has_setStyles = True, has_goTo = True\<rparr>\<rparr>"

definition snap0 :: "int renderSnap" where
  "snap0 =
     \<lparr>padding_r = \<lparr>pad_top = 10, pad_right = 0, pad_bottom = 0, pad_left = 0\<rparr>,
      themeCode = Ref 100, isDarkMode = False, viewSettings_r = Some settings0\<rparr>"

text \<open>
  An application in which only the settings of book \<open>A\<close> exist, with a container of
  800 by 600 in a window of 1024 by 768, and the component just mounted.
\<close>

definition app0 :: "int state" where
  "app0 =
     mounted 0 Map.empty Map.empty [''A'' \<mapsto> settings0] Map.empty None (Some (800, 600))
       1024 768"

section \<open>The content transform hook\<close>

text \<open>
  Claim C3. When the settings exist and the transform chosen for a content payload (the
  stylesheet transform for \<^verbatim>\<open>text/css\<close>, the content pipeline for
  \<^verbatim>\<open>application/xhtml+xml\<close>) throws or rejects with \<open>e\<close>, the listener catches it:
  the content delivered to the widget is the empty string, and the last thing done is a
  \<^verbatim>\<open>console.error\<close> whose message is \<^verbatim>\<open>Failed to load\<close> followed by the
  resource's name, with \<open>e\<close> as its cause.
\<close>

theorem transform_failure_degrades:
  assumes "getViewSettings key = Some vs" and "data detail = Inr dat"
    and "(type detail = ''text/css'' \<and> transformStylesheet x vs width height dat = Inl e) \<or>
         (type detail = ''application/xhtml+xml'' \<and>
          transformContent x \<lparr>ctx_bookKey = key, ctx_viewSettings = vs, content = dat,
            transformers = [''punctuation'', ''footnote'']\<rparr> = Inl e)"
  shows "snd (getDocTransformHandler x key width height getViewSettings detail)
           = detail\<lparr>data := Inr ''''\<rparr>
       \<and> last (fst (getDocTransformHandler x key width height getViewSettings detail))
           = ConsoleError (''Failed to load '' @ name detail) e"
  using assms by (auto simp: getDocTransformHandler_def transformData_def)

theorem transform_failure_degrades_witness:
  "[''A'' \<mapsto> settings0] ''A'' = Some settings0
   \<and> data \<lparr>data = Inr ''<p/>'', type = ''application/xhtml+xml'', name = ''ch1.xhtml''\<rparr>
       = Inr ''<p/>''
   \<and> transformContent externals0 \<lparr>ctx_bookKey = ''A'', ctx_viewSettings = settings0,
         content = ''<p/>'', transformers = [''punctuation'', ''footnote'']\<rparr>
       = Inl (Thrown (Str ''bad markup''))
   \<and> snd (getDocTransformHandler externals0 ''A'' 800 600 [''A'' \<mapsto> settings0]
         \<lparr>data = Inr ''<p/>'', type = ''application/xhtml+xml'', name = ''ch1.xhtml''\<rparr>)
       = \<lparr>data = Inr '''', type = ''application/xhtml+xml'', name = ''ch1.xhtml''\<rparr>
   \<and> last (fst (getDocTransformHandler externals0 ''A'' 800 600 [''A'' \<mapsto> settings0]
         \<lparr>data = Inr ''<p/>'', type = ''application/xhtml+xml'', name = ''ch1.xhtml''\<rparr>))
       = ConsoleError ''Failed to load ch1.xhtml'' (Thrown (Str ''bad markup''))"
proof -
  have h1: "[''A'' \<mapsto> settings0] ''A'' = Some settings0"
    by simp
  have h2: "data \<lparr>data = Inr ''<p/>'', type = ''application/xhtml+xml'',
      name = ''ch1.xhtml''\<rparr> = Inr ''<p/>''"
    by simp
  have h3: "transformContent externals0 \<lparr>ctx_bookKey = ''A'', ctx_viewSettings = settings0,
         content = ''<p/>'', transformers = [''punctuation'', ''footnote'']\<rparr>
       = Inl (Thrown (Str ''bad markup''))"
    by (simp add: externals0_def)
  show ?thesis
    using h1 h2 h3
      transform_failure_degrades [where getViewSettings = "[''A'' \<mapsto> settings0]"
        and key = "''A''" and vs = settings0 and dat = "''<p/>''" and x = externals0
        and detail = "\<lparr>data = Inr ''<p/>'', type = ''application/xhtml+xml'',
                       name = ''ch1.xhtml''\<rparr>"
        and e = "Thrown (Str ''bad markup'')" and width = 800 and height = 600]
    by simp
qed

text \<open>
  Claim C10. When the settings store has no entry for the book key, a content payload of
  any type, stylesheets and XHTML included, is delivered as it is and nothing else is
  done; and whatever the payload, neither transform is called.
\<close>

theorem no_settings_passthrough:
  assumes "getViewSettings key = None"
  shows "(data detail = Inr dat \<longrightarrow>
            getDocTransformHandler x key width height getViewSettings detail = ([], detail))
       \<and> filter isTransformCall
            (fst (getDocTransformHandler x key width height getViewSettings detail)) = []"
  using assms
  by (auto simp: getDocTransformHandler_def transformData_def split: sum.splits)

theorem no_settings_passthrough_witness:
  "Map.empty ''A'' = (None :: int viewSettings option)
   \<and> getDocTransformHandler externals0 ''A'' 800 600 Map.empty
        \<lparr>data = Inr ''<p/>'', type = ''application/xhtml+xml'', name = ''ch1.xhtml''\<rparr>
      = ([], \<lparr>data = Inr ''<p/>'', type = ''application/xhtml+xml'', name = ''ch1.xhtml''\<rparr>)"
proof -
  have h: "Map.empty ''A'' = (None :: int viewSettings option)" by simp
  show ?thesis
    using h no_settings_passthrough [where getViewSettings = Map.empty and key = "''A''"
        and detail = "\<lparr>data = Inr ''<p/>'', type = ''application/xhtml+xml'',
                       name = ''ch1.xhtml''\<rparr>"
        and dat = "''<p/>''" and x = externals0 and width = 800 and height = 600]
    by simp
qed

section \<open>The event bridge\<close>

text \<open>
  Claim C9. Whatever relocate events a view sends, each of them makes one call of
  \<^verbatim>\<open>setProgress\<close> with the book key and the six fields of its detail (cfi, tocItem,
  section, location, time, range), in the order of the events: none is left out and no
  two are merged.
\<close>

theorem every_relocate_written:
  "trace (onRelocate key details s) =
     trace s @ map (\<lambda>d. SetProgress key (cfi d) (tocItem d) (section_d d) (location d)
                          (time d) (range_d d)) details"
  unfolding onRelocate_def
  by (induction details arbitrary: s) (simp_all add: emit_def progressRelocateHandler_def)

theorem every_relocate_written_witness:
  "trace (onRelocate ''A''
      [\<lparr>cfi = Str ''epubcfi(/6/4)'', tocItem = Ref 1, section_d = Ref 2, location = Ref 3,
         time = Ref 4, range_d = Ref 5\<rparr>,
       \<lparr>cfi = Str ''epubcfi(/6/4)'', tocItem = Ref 1, section_d = Ref 2, location = Ref 3,
         time = Ref 4, range_d = Ref 5\<rparr>] state0)
   = [SetProgress ''A'' (Str ''epubcfi(/6/4)'') (Ref 1) (Ref 2) (Ref 3) (Ref 4) (Ref 5),
      SetProgress ''A'' (Str ''epubcfi(/6/4)'') (Ref 1) (Ref 2) (Ref 3) (Ref 4) (Ref 5)]"
  using every_relocate_written [of "''A''"
      "[\<lparr>cfi = Str ''epubcfi(/6/4)'', tocItem = Ref 1, section_d = Ref 2, location = Ref 3,
         time = Ref 4, range_d = Ref 5\<rparr>,
       \<lparr>cfi = Str ''epubcfi(/6/4)'', tocItem = Ref 1, section_d = Ref 2, location = Ref 3,
         time = Ref 4, range_d = Ref 5\<rparr>]" state0]
  by (simp add: state0_def)

lemma isGoToOf_unique: "isGoToOf k a \<Longrightarrow> isGoToOf k' a \<Longrightarrow> k = k'"
  by (cases a) auto

lemma filter_concat_members:
  assumes "distinct ks" and "\<And>m. \<forall>a \<in> set (f m). isGoToOf m a"
  shows "filter (isGoToOf k) (concat (map f ks)) = (if k \<in> set ks then f k else [])"
  using assms(1)
proof (induction ks)
  case Nil
  then show ?case by simp
next
  case (Cons m ms)
  have other: "filter (isGoToOf k) (f m) = []" if "m \<noteq> k"
    using assms(2) [of m] that by (auto simp: filter_empty_conv dest: isGoToOf_unique)
  have same: "filter (isGoToOf k) (f k) = f k"
    using assms(2) [of k] by (simp add: filter_id_conv)
  from Cons.prems have notin: "m \<notin> set ms" and dist: "distinct ms"
    by simp_all
  note IH = Cons.IH [OF dist]
  show ?case
  proof (cases "m = k")
    case True
    with notin have "k \<notin> set ms" by simp
    with True IH show ?thesis by (simp add: same)
  next
    case False
    with IH show ?thesis by (auto simp: other)
  qed
qed

text \<open>
  Claim C2, as amended. A renderer relocate event whose reason is neither
  \<^verbatim>\<open>scroll\<close> nor \<^verbatim>\<open>page\<close> makes no call at all. For an event whose reason is one
  of the two and a book key with a parallel group: a member \<open>k\<close> of the group other than
  the book key, whose view has a renderer that has a \<^verbatim>\<open>goTo\<close> method, gets exactly
  one \<^verbatim>\<open>goTo\<close> call, with the event's index and fraction; every other key gets none
  (the book key itself, a key outside the group, a member without a view, without a
  renderer, or whose renderer has no \<^verbatim>\<open>goTo\<close>); and nothing but such calls is made.
\<close>

theorem relocate_propagation:
  "(reason detail \<noteq> Str ''scroll'' \<and> reason detail \<noteq> Str ''page''
      \<longrightarrow> docRelocateHandler key s detail = [])
   \<and> ((reason detail = Str ''scroll'' \<or> reason detail = Str ''page'')
        \<and> parallels s key = Some pvs
      \<longrightarrow> filter (isGoToOf k) (docRelocateHandler key s detail) =
            (if Dlist.member pvs k \<and> k \<noteq> key
             then (case views s k of
                     None \<Rightarrow> []
                   | Some v \<Rightarrow>
                       (case renderers s v of
                          None \<Rightarrow> []
                        | Some target \<Rightarrow>
                            if has_goTo target
                            then [GoTo k v (index detail) (fraction detail)]
                            else []))
             else [])
          \<and> filter (isGoToOf key) (docRelocateHandler key s detail) = []
          \<and> (\<forall>a \<in> set (docRelocateHandler key s detail).
                \<exists>m v. a = GoTo m v (index detail) (fraction detail)))"
proof (intro conjI impI)
  assume "reason detail \<noteq> Str ''scroll'' \<and> reason detail \<noteq> Str ''page''"
  then show "docRelocateHandler key s detail = []"
    by (simp add: docRelocateHandler_def)
next
  assume acc: "(reason detail = Str ''scroll'' \<or> reason detail = Str ''page'')
      \<and> parallels s key = Some pvs"
  define f where "f = (\<lambda>m.
     if m \<noteq> key
     then (case views s m of
             None \<Rightarrow> []
           | Some v \<Rightarrow>
               (case renderers s v of
                  None \<Rightarrow> []
                | Some target \<Rightarrow>
                    if has_goTo target
                    then [GoTo m v (index detail) (fraction detail)]
                    else []))
     else [])"
  have shape: "f m = [] \<or> (\<exists>v. f m = [GoTo m v (index detail) (fraction detail)])" for m
    by (simp add: f_def split: option.split)
  have own: "\<forall>a \<in> set (f m). isGoToOf m a" for m
    using shape [of m] by auto
  have "list_of_dlist pvs = []" if "Dlist.length pvs = 0"
    using that by (simp add: Dlist.length_def)
  then have eq: "docRelocateHandler key s detail = concat (map f (list_of_dlist pvs))"
    using acc unfolding docRelocateHandler_def f_def
    by (cases "Dlist.length pvs = 0") auto
  have per: "filter (isGoToOf m) (docRelocateHandler key s detail)
      = (if m \<in> set (list_of_dlist pvs) then f m else [])" for m
    unfolding eq by (rule filter_concat_members) (simp_all add: own)
  show "filter (isGoToOf k) (docRelocateHandler key s detail) =
            (if Dlist.member pvs k \<and> k \<noteq> key
             then (case views s k of
                     None \<Rightarrow> []
                   | Some v \<Rightarrow>
                       (case renderers s v of
                          None \<Rightarrow> []
                        | Some target \<Rightarrow>
                            if has_goTo target
                            then [GoTo k v (index detail) (fraction detail)]
                            else []))
             else [])"
    unfolding per by (simp add: f_def Dlist.member_def)
  show "filter (isGoToOf key) (docRelocateHandler key s detail) = []"
    unfolding per by (simp add: f_def)
  show "\<forall>a \<in> set (docRelocateHandler key s detail).
          \<exists>m v. a = GoTo m v (index detail) (fraction detail)"
  proof
    fix a assume "a \<in> set (docRelocateHandler key s detail)"
    then obtain m where "a \<in> set (f m)"
      unfolding eq by auto
    with shape [of m]
    show "\<exists>m v. a = GoTo m v (index detail) (fraction detail)" by auto
  qed
qed

theorem relocate_propagation_witness:
  "reason \<lparr>reason = Str ''page'', index = Num 7, fraction = Num 0\<rparr> = Str ''page''
   \<and> parallels state0 ''A'' = Some (Dlist [''A'', ''B'', ''C'', ''D''])
   \<and> filter (isGoToOf ''B'')
        (docRelocateHandler ''A'' state0 \<lparr>reason = Str ''page'', index = Num 7, fraction = Num 0\<rparr>)
      = [GoTo ''B'' 1 (Num 7) (Num 0)]
   \<and> filter (isGoToOf ''C'')
        (docRelocateHandler ''A'' state0 \<lparr>reason = Str ''page'', index = Num 7, fraction = Num 0\<rparr>)
      = []
   \<and> filter (isGoToOf ''A'')
        (docRelocateHandler ''A'' state0 \<lparr>reason = Str ''page'', index = Num 7, fraction = Num 0\<rparr>)
      = []
   \<and> docRelocateHandler ''A'' state0 \<lparr>reason = Str ''resize'', index = Num 7, fraction = Num 0\<rparr>
      = []"
  using relocate_propagation [of "\<lparr>reason = Str ''page'', index = Num 7, fraction = Num 0\<rparr>"
      "''A''" state0 "Dlist [''A'', ''B'', ''C'', ''D'']" "''B''"]
    relocate_propagation [of "\<lparr>reason = Str ''page'', index = Num 7, fraction = Num 0\<rparr>"
      "''A''" state0 "Dlist [''A'', ''B'', ''C'', ''D'']" "''C''"]
    relocate_propagation [of "\<lparr>reason = Str ''resize'', index = Num 7, fraction = Num 0\<rparr>"
      "''A''" state0 "Dlist [''A'', ''B'', ''C'', ''D'']" "''B''"]
  by (simp add: state0_def Dlist.member_def)

text \<open>
  The claim without the amendment fails: \<open>D\<close> is a member of the group of \<open>A\<close>, it is
  not \<open>A\<close>, its view has a renderer, and an accepted event from \<open>A\<close> makes no
  \<^verbatim>\<open>goTo\<close> call on it, because that renderer has no \<^verbatim>\<open>goTo\<close>.
\<close>

theorem renderer_without_goTo_counterexample:
  "reason \<lparr>reason = Str ''scroll'', index = Num 7, fraction = Num 0\<rparr> = Str ''scroll''
   \<and> parallels state0 ''A'' = Some (Dlist [''A'', ''B'', ''C'', ''D''])
   \<and> Dlist.member (Dlist [''A'', ''B'', ''C'', ''D'']) ''D''
   \<and> ''D'' \<noteq> ''A''
   \<and> views state0 ''D'' = Some 3
   \<and> renderers state0 3 = Some \<lparr>has_setStyles = False, has_goTo = False\<rparr>
   \<and> filter (isGoToOf ''D'')
        (docRelocateHandler ''A'' state0 \<lparr>reason = Str ''scroll'', index = Num 7, fraction = Num 0\<rparr>)
      = []"
  by (simp add: state0_def docRelocateHandler_def Dlist.member_def Dlist.length_def)

section \<open>Margin and gap\<close>

text \<open>
  Claim C7. When margin and gap are applied (the settings exist and
  \<^verbatim>\<open>viewRef.current\<close> is a view with a renderer), for every settings state and
  padding, whatever numbers they hold: if \<^verbatim>\<open>showHeader\<close> and \<^verbatim>\<open>showFooter\<close> are
  both false, the first two writes set the attribute \<^verbatim>\<open>margin\<close> to what the
  language prints for \<^verbatim>\<open>compactMarginPx + padding.top\<close>, followed by \<^verbatim>\<open>px\<close>,
  and the attribute \<^verbatim>\<open>gap\<close> to what it prints for \<^verbatim>\<open>compactGapPercent\<close>,
  followed by a percent sign; otherwise they use \<^verbatim>\<open>marginPx\<close> and
  \<^verbatim>\<open>gapPercent\<close>. The only other write sets \<^verbatim>\<open>flow\<close> to \<^verbatim>\<open>scrolled\<close>, and
  is made exactly when \<^verbatim>\<open>scrolled\<close> is true. Nothing is thrown. The sum is the
  language's sum of two numbers and the printing is the language's, both parameters.
\<close>

theorem margin_and_gap_written:
  assumes "settingsStore s key = Some vs" and "viewRef s = Some v"
    and "renderers s v = Some rend"
  shows "(\<not> showHeader vs \<and> \<not> showFooter vs \<longrightarrow>
            take 2 (fst (applyMarginAndGap j key pad s)) =
              [SetAttribute v ''margin'' (js_toString j (js_add j (compactMarginPx vs) (pad_top pad)) @ ''px''),
               SetAttribute v ''gap'' (js_toString j (compactGapPercent vs) @ ''%'')])
       \<and> (showHeader vs \<or> showFooter vs \<longrightarrow>
            take 2 (fst (applyMarginAndGap j key pad s)) =
              [SetAttribute v ''margin'' (js_toString j (js_add j (marginPx vs) (pad_top pad)) @ ''px''),
               SetAttribute v ''gap'' (js_toString j (gapPercent vs) @ ''%'')])
       \<and> drop 2 (fst (applyMarginAndGap j key pad s)) =
            (if scrolled vs then [SetAttribute v ''flow'' ''scrolled''] else [])
       \<and> snd (applyMarginAndGap j key pad s) = None"
  using assms by (auto simp: applyMarginAndGap_def Let_def)

theorem margin_and_gap_written_witness:
  "settingsStore state0 ''A'' = Some settings0 \<and> viewRef state0 = Some 0
   \<and> renderers state0 0 = Some \<lparr>has_setStyles = True, has_goTo = True\<rparr>
   \<and> applyMarginAndGap js0 ''A'' \<lparr>pad_top = 10, pad_right = 0, pad_bottom = 0, pad_left = 0\<rparr> state0
      = ([SetAttribute 0 ''margin'' ''54px'', SetAttribute 0 ''gap'' ''5%'',
          SetAttribute 0 ''flow'' ''scrolled''], None)"
proof -
  have h1: "settingsStore state0 ''A'' = Some settings0"
    and h2: "viewRef state0 = Some 0"
    and h3: "renderers state0 0 = Some \<lparr>has_setStyles = True, has_goTo = True\<rparr>"
    by (simp_all add: state0_def)
  have "take 2 (fst (applyMarginAndGap js0 ''A''
           \<lparr>pad_top = 10, pad_right = 0, pad_bottom = 0, pad_left = 0\<rparr> state0))
        = [SetAttribute 0 ''margin'' ''54px'', SetAttribute 0 ''gap'' ''5%'']
      \<and> drop 2 (fst (applyMarginAndGap js0 ''A''
           \<lparr>pad_top = 10, pad_right = 0, pad_bottom = 0, pad_left = 0\<rparr> state0))
        = [SetAttribute 0 ''flow'' ''scrolled'']
      \<and> snd (applyMarginAndGap js0 ''A''
           \<lparr>pad_top = 10, pad_right = 0, pad_bottom = 0, pad_left = 0\<rparr> state0) = None"
    using margin_and_gap_written [OF h1 h2 h3, where j = js0
        and pad = "\<lparr>pad_top = 10, pad_right = 0, pad_bottom = 0, pad_left = 0\<rparr>"]
    by (simp add: settings0_def decimal_def js0_def)
  then have "applyMarginAndGap js0 ''A''
           \<lparr>pad_top = 10, pad_right = 0, pad_bottom = 0, pad_left = 0\<rparr> state0
      = ([SetAttribute 0 ''margin'' ''54px'', SetAttribute 0 ''gap'' ''5%'',
          SetAttribute 0 ''flow'' ''scrolled''], None)"
    by (metis append_take_drop_id append_Cons append_Nil prod.collapse)
  with h1 h2 h3 show ?thesis by simp
qed

section \<open>The effects of an update\<close>

lemma marginDeps_eq_iff:
  "marginDeps prev = marginDeps cur \<longleftrightarrow>
     padding_r prev = padding_r cur
     \<and> map_option layoutFields (viewSettings_r prev) = map_option layoutFields (viewSettings_r cur)"
  by (cases "padding_r prev"; cases "padding_r cur"; cases "viewSettings_r prev";
      cases "viewSettings_r cur")
     (auto simp: marginDeps_def layoutFields_def)

lemma styleDeps_eq_iff:
  "styleDeps prev = styleDeps cur \<longleftrightarrow>
     themeCode prev = themeCode cur \<and> isDarkMode prev = isDarkMode cur"
  by (simp add: styleDeps_def)

lemma applyMarginAndGap_writes: "list_all isMarginGapWrite (fst (applyMarginAndGap j key pad s))"
  by (simp add: applyMarginAndGap_def Let_def split: option.split)

lemma marginEffect_writes: "list_all isMarginGapWrite (fst (marginEffect j key r s))"
  by (simp add: marginEffect_def applyMarginAndGap_writes split: option.split)

lemma applyStyles_writes: "list_all isStyleAction (fst (applyStyles x v rend vso))"
  by (simp add: applyStyles_def split: sum.split)

lemma styleEffect_writes: "list_all isStyleAction (fst (styleEffect x key s))"
  by (simp add: styleEffect_def applyStyles_writes split: option.split)

text \<open>
  Claim C6. From one render to the next: when theme code and dark-mode flag are
  unchanged, the effects do what the margin effect does if the padding or one of the six
  layout settings changed, and nothing otherwise, and all they do is write the
  attributes margin, gap and flow; \<^verbatim>\<open>getStyles\<close> and \<^verbatim>\<open>setStyles\<close> are not
  called. When the padding and the six layout settings are unchanged, the effects do what
  the style effect does if theme code or dark-mode flag changed, and nothing otherwise,
  and all they do is call \<^verbatim>\<open>getStyles\<close> and \<^verbatim>\<open>setStyles\<close>; no attribute is
  written. With a view that has a renderer, the style effect applies the styles, and the
  margin effect, when the render has settings, is \<^verbatim>\<open>applyMarginAndGap\<close>.
\<close>

theorem effects_are_separate:
  "(themeCode prev = themeCode cur \<and> isDarkMode prev = isDarkMode cur \<longrightarrow>
      commitEffects j x key prev cur s =
        (if padding_r prev = padding_r cur
            \<and> map_option layoutFields (viewSettings_r prev)
                = map_option layoutFields (viewSettings_r cur)
         then ([], None) else marginEffect j key cur s)
      \<and> list_all isMarginGapWrite (fst (commitEffects j x key prev cur s)))
   \<and> (padding_r prev = padding_r cur
       \<and> map_option layoutFields (viewSettings_r prev)
           = map_option layoutFields (viewSettings_r cur) \<longrightarrow>
      commitEffects j x key prev cur s =
        (if themeCode prev = themeCode cur \<and> isDarkMode prev = isDarkMode cur
         then ([], None) else styleEffect x key s)
      \<and> list_all isStyleAction (fst (commitEffects j x key prev cur s)))
   \<and> (viewRef s = Some v \<and> renderers s v = Some rend \<longrightarrow>
        styleEffect x key s = applyStyles x v rend (settingsStore s key)
        \<and> (viewSettings_r cur \<noteq> None \<longrightarrow>
             marginEffect j key cur s = applyMarginAndGap j key (padding_r cur) s))"
proof (intro conjI impI)
  assume same: "themeCode prev = themeCode cur \<and> isDarkMode prev = isDarkMode cur"
  then have eq: "commitEffects j x key prev cur s =
      (if marginDeps prev \<noteq> marginDeps cur then marginEffect j key cur s else ([], None))"
    by (simp add: commitEffects_def styleDeps_eq_iff split: prod.split)
  then show "commitEffects j x key prev cur s =
        (if padding_r prev = padding_r cur
            \<and> map_option layoutFields (viewSettings_r prev)
                = map_option layoutFields (viewSettings_r cur)
         then ([], None) else marginEffect j key cur s)"
    by (simp add: marginDeps_eq_iff)
  show "list_all isMarginGapWrite (fst (commitEffects j x key prev cur s))"
    unfolding eq by (simp add: marginEffect_writes)
next
  assume same: "padding_r prev = padding_r cur
       \<and> map_option layoutFields (viewSettings_r prev)
           = map_option layoutFields (viewSettings_r cur)"
  then have "marginDeps prev = marginDeps cur"
    by (simp add: marginDeps_eq_iff)
  then have eq: "commitEffects j x key prev cur s =
      (if styleDeps prev \<noteq> styleDeps cur then styleEffect x key s else ([], None))"
    by (cases "styleEffect x key s") (auto simp: commitEffects_def split: option.split)
  then show "commitEffects j x key prev cur s =
        (if themeCode prev = themeCode cur \<and> isDarkMode prev = isDarkMode cur
         then ([], None) else styleEffect x key s)"
    by (simp add: styleDeps_eq_iff)
  show "list_all isStyleAction (fst (commitEffects j x key prev cur s))"
    unfolding eq by (simp add: styleEffect_writes)
next
  assume "viewRef s = Some v \<and> renderers s v = Some rend"
  then show "styleEffect x key s = applyStyles x v rend (settingsStore s key)"
    by (simp add: styleEffect_def)
next
  assume "viewRef s = Some v \<and> renderers s v = Some rend"
    and "viewSettings_r cur \<noteq> None"
  then show "marginEffect j key cur s = applyMarginAndGap j key (padding_r cur) s"
    by (auto simp: marginEffect_def)
qed

theorem effects_are_separate_witness:
  "themeCode snap0
       = themeCode (snap0\<lparr>padding_r := \<lparr>pad_top = 20, pad_right = 0, pad_bottom = 0,
           pad_left = 0\<rparr>\<rparr>)
   \<and> padding_r snap0 = padding_r (snap0\<lparr>isDarkMode := True\<rparr>)
   \<and> commitEffects js0 externals0 ''A'' snap0
       (snap0\<lparr>padding_r := \<lparr>pad_top = 20, pad_right = 0, pad_bottom = 0, pad_left = 0\<rparr>\<rparr>) state0
     = ([SetAttribute 0 ''margin'' ''64px'', SetAttribute 0 ''gap'' ''5%'',
         SetAttribute 0 ''flow'' ''scrolled''], None)
   \<and> commitEffects js0 externals0 ''A'' snap0 (snap0\<lparr>isDarkMode := True\<rparr>) state0
     = ([CallGetStyles (Some settings0), SetStyles 0 ''p{}''], None)"
  using effects_are_separate [where prev = snap0
      and cur = "snap0\<lparr>padding_r := \<lparr>pad_top = 20, pad_right = 0, pad_bottom = 0, pad_left = 0\<rparr>\<rparr>"
      and x = externals0 and key = "''A''" and s = state0 and v = 0
      and rend = "\<lparr>has_setStyles = True, has_goTo = True\<rparr>"]
    effects_are_separate [where prev = snap0 and cur = "snap0\<lparr>isDarkMode := True\<rparr>"
      and x = externals0 and key = "''A''" and s = state0 and v = 0
      and rend = "\<lparr>has_setStyles = True, has_goTo = True\<rparr>"]
  by (simp add: snap0_def state0_def applyMarginAndGap_def applyStyles_def externals0_def
        settings0_def decimal_def js0_def)

section \<open>Opening the book\<close>

text \<open>
  Claim C4. When \<^verbatim>\<open>openBook\<close> goes on after the import and the settings name a
  writing mode (a non-empty string), \<^verbatim>\<open>bookDoc.dir\<close> becomes the direction of the
  writing mode if that is not \<^verbatim>\<open>auto\<close>, else the direction of the language if that
  is not \<^verbatim>\<open>auto\<close>, and else stays what it was. This is settled when
  \<^verbatim>\<open>view.open\<close> is called, which is the last thing done before the call is
  suspended again.
\<close>

theorem direction_precedence:
  assumes "settingsStore s (bookKey e) = Some vs" and "writingMode vs \<noteq> []"
  shows "bookDoc_dir (snd (afterImport j x e s)) =
           (if getBookDirFromWritingMode x (writingMode vs) \<noteq> ''auto''
            then Some (getBookDirFromWritingMode x (writingMode vs))
            else if getBookDirFromLanguage x (language e) \<noteq> ''auto''
            then Some (getBookDirFromLanguage x (language e))
            else bookDoc_dir s)
       \<and> (\<exists>width height. fst (afterImport j x e s) = Some (AwaitOpen (nextRef s) width height vs))
       \<and> last (trace (snd (afterImport j x e s))) = OpenCalled (nextRef s)"
  using assms by (simp add: afterImport_def Let_def emit_def)

theorem direction_precedence_witness:
  "settingsStore (mounted 0 Map.empty Map.empty [''A'' \<mapsto> settings0] Map.empty (Some ''ltr'') (Some (800, 600)) 1024 768)
       (bookKey env0) = Some settings0
   \<and> writingMode settings0 \<noteq> []
   \<and> bookDoc_dir (snd (afterImport js0 externals0 env0
         (mounted 0 Map.empty Map.empty [''A'' \<mapsto> settings0] Map.empty (Some ''ltr'') (Some (800, 600)) 1024 768)))
       = Some ''rtl''
   \<and> bookDoc_dir (snd (afterImport js0 externals0 (env0\<lparr>language := Str ''ar''\<rparr>)
         (mounted 0 Map.empty Map.empty
            [''A'' \<mapsto> settings0\<lparr>writingMode := ''horizontal-tb''\<rparr>] Map.empty (Some ''ltr'') (Some (800, 600)) 1024 768)))
       = Some ''rtl''
   \<and> bookDoc_dir (snd (afterImport js0 externals0 env0
         (mounted 0 Map.empty Map.empty
            [''A'' \<mapsto> settings0\<lparr>writingMode := ''horizontal-tb''\<rparr>] Map.empty (Some ''ltr'') (Some (800, 600)) 1024 768)))
       = Some ''ltr''"
proof -
  have h1: "settingsStore (mounted 0 Map.empty Map.empty [''A'' \<mapsto> settings0] Map.empty (Some ''ltr'')
      (Some (800, 600)) 1024 768) (bookKey env0) = Some settings0"
    by (simp add: mounted_def env0_def)
  have h2: "writingMode settings0 \<noteq> []"
    by (simp add: settings0_def)
  have h3: "settingsStore (mounted 0 Map.empty Map.empty
      [''A'' \<mapsto> settings0\<lparr>writingMode := ''horizontal-tb''\<rparr>] Map.empty (Some ''ltr'') (Some (800, 600)) 1024 768)
      (bookKey (env0\<lparr>language := Str ''ar''\<rparr>)) = Some (settings0\<lparr>writingMode := ''horizontal-tb''\<rparr>)"
    by (simp add: mounted_def env0_def)
  have h4: "settingsStore (mounted 0 Map.empty Map.empty
      [''A'' \<mapsto> settings0\<lparr>writingMode := ''horizontal-tb''\<rparr>] Map.empty (Some ''ltr'') (Some (800, 600)) 1024 768)
      (bookKey env0) = Some (settings0\<lparr>writingMode := ''horizontal-tb''\<rparr>)"
    by (simp add: mounted_def env0_def)
  have h5: "writingMode (settings0\<lparr>writingMode := ''horizontal-tb''\<rparr>) \<noteq> []"
    by simp
  show ?thesis
    using h1 h2 direction_precedence [OF h1 h2, where j = js0 and x = externals0]
      direction_precedence [OF h3 h5, where j = js0 and x = externals0]
      direction_precedence [OF h4 h5, where j = js0 and x = externals0]
    by (simp add: externals0_def settings0_def env0_def mounted_def)
qed

section \<open>The steps of openBook\<close>

lemma applyStyles_quiet: "list_all (\<lambda>a. \<not> isLifecycle a) (fst (applyStyles x v rend vso))"
  by (simp add: applyStyles_def split: sum.split)

lemma applyMarginAndGap_quiet:
  "list_all (\<lambda>a. \<not> isLifecycle a) (fst (applyMarginAndGap j key pad s))"
  by (simp add: applyMarginAndGap_def Let_def split: option.split)

lemma afterLock_frame:
  "isViewCreated (snd (afterLock j e v vs m s)) = isViewCreated s
   \<and> tasks (snd (afterLock j e v vs m s)) = tasks s
   \<and> viewRef (snd (afterLock j e v vs m s)) = viewRef s
   \<and> views (snd (afterLock j e v vs m s)) = views s
   \<and> fst (afterLock j e v vs m s) \<noteq> Some AwaitImport"
  by (simp add: afterLock_def emit_def Let_def split: prod.split option.split)

lemma afterLock_trace:
  "\<exists>acts. trace (snd (afterLock j e v vs m s)) = trace s @ acts
          \<and> list_all (\<lambda>a. \<not> isLifecycle a) acts"
proof -
  define s1 where "s1 = emit [if animated vs then SetAttribute v ''animated'' ''''
                     else RemoveAttribute v ''animated'',
                     SetAttribute v ''max-column-count'' (js_toString j (maxColumnCount vs)),
                     SetAttribute v ''max-inline-size'' (js_toString j m @ ''px''),
                     SetAttribute v ''max-block-size''
                       (js_toString j (maxBlockSize vs) @ ''px'')] s"
  obtain acts r where mg: "applyMarginAndGap j (bookKey e) (mount_padding e) s1 = (acts, r)"
    by force
  have q: "list_all (\<lambda>a. \<not> isLifecycle a) acts"
    using applyMarginAndGap_quiet [of j "bookKey e" "mount_padding e" s1] mg by simp
  show ?thesis
    using mg q unfolding afterLock_def Let_def s1_def [symmetric]
    by (cases r) (simp_all add: s1_def emit_def)
qed

lemma afterOpen_frame:
  "isViewCreated (snd (afterOpen j x e v w h vs s)) = isViewCreated s
   \<and> tasks (snd (afterOpen j x e v w h vs s)) = tasks s
   \<and> viewRef (snd (afterOpen j x e v w h vs s)) = Some v
   \<and> views (snd (afterOpen j x e v w h vs s)) = (views s)(bookKey e \<mapsto> v)
   \<and> fst (afterOpen j x e v w h vs s) \<noteq> Some AwaitImport"
  by (simp add: afterOpen_def emit_def Let_def afterLock_frame split: prod.split option.split)

lemma afterOpen_trace:
  "\<exists>acts. trace (snd (afterOpen j x e v w h vs s))
            = trace s @ [OpenResolved v, SetViewRef v, SetFoliateView (bookKey e) v] @ acts
          \<and> list_all (\<lambda>a. \<not> isLifecycle a) acts"
proof -
  obtain acts r where st: "applyStyles x v (bookRenderer e) (Some vs) = (acts, r)"
    by force
  have q: "list_all (\<lambda>a. \<not> isLifecycle a) acts"
    using applyStyles_quiet [of x v "bookRenderer e" "Some vs"] st by simp
  show ?thesis
  proof (cases r)
    case (Some ex)
    with st q show ?thesis
      by (simp add: afterOpen_def Let_def emit_def)
  next
    case None
    show ?thesis
    proof (cases "isMobileApp e")
      case True
      with None st q show ?thesis
        by (simp add: afterOpen_def Let_def emit_def)
    next
      case False
      define s3 where "s3 = emit acts (emit (if hasTransformTarget e
                     then [AddLoadListener v (case allowScript vs of None \<Rightarrow> False | Some b \<Rightarrow> b),
                           AddDataListener v w h]
                     else [])
           (emit [SetViewRef v, SetFoliateView (bookKey e) v]
              ((emit [OpenResolved v] (s\<lparr>renderers := (renderers s)(v \<mapsto> bookRenderer e)\<rparr>))
                 \<lparr>viewRef := Some v,
                  views := (views (emit [OpenResolved v]
                     (s\<lparr>renderers := (renderers s)(v \<mapsto> bookRenderer e)\<rparr>)))(bookKey e \<mapsto> v)\<rparr>)))"
      obtain more where m: "trace (snd (afterLock j e v vs (getMaxInlineSize x vs) s3))
          = trace s3 @ more" and qm: "list_all (\<lambda>a. \<not> isLifecycle a) more"
        using afterLock_trace [of j e v vs "getMaxInlineSize x vs" s3] by blast
      have eq: "afterOpen j x e v w h vs s = afterLock j e v vs (getMaxInlineSize x vs) s3"
        using None st False by (simp add: afterOpen_def Let_def s3_def)
      show ?thesis
        unfolding eq m using q qm by (simp add: s3_def emit_def)
    qed
  qed
qed

lemma afterImport_frame:
  "isViewCreated (snd (afterImport j x e s)) = isViewCreated s
   \<and> tasks (snd (afterImport j x e s)) = tasks s
   \<and> viewRef (snd (afterImport j x e s)) = viewRef s
   \<and> views (snd (afterImport j x e s)) = views s
   \<and> fst (afterImport j x e s) \<noteq> Some AwaitImport"
  by (simp add: afterImport_def emit_def Let_def split: option.split)

lemma afterImport_trace:
  "\<exists>acts opens. trace (snd (afterImport j x e s))
            = trace s @ CreateElement (nextRef s) # acts @ opens
          \<and> list_all (\<lambda>a. \<not> isLifecycle a) acts
          \<and> (opens = [] \<or> opens = [OpenCalled (nextRef s)])"
proof (cases "settingsStore s (bookKey e)")
  case None
  then have "trace (snd (afterImport j x e s))
      = trace s @ CreateElement (nextRef s)
          # ([SetId (nextRef s) (''foliate-view-'' @ bookKey e), AppendToBody (nextRef s)]
             @ (if containerRect s \<noteq> None then [AppendToContainer (nextRef s)] else [])
             @ [UnhandledRejection TypeError]) @ []"
    by (simp add: afterImport_def Let_def emit_def)
  then show ?thesis
    by (intro exI conjI) (assumption, simp_all)
next
  case (Some vs)
  then have "trace (snd (afterImport j x e s))
      = trace s @ CreateElement (nextRef s)
          # ([SetId (nextRef s) (''foliate-view-'' @ bookKey e), AppendToBody (nextRef s)]
             @ (if containerRect s \<noteq> None then [AppendToContainer (nextRef s)] else []))
            @ [OpenCalled (nextRef s)]"
    by (simp add: afterImport_def Let_def emit_def)
  then show ?thesis
    by (intro exI conjI) (assumption, simp_all)
qed

lemma resume_frame:
  "isViewCreated (snd (resume j x e t s)) = isViewCreated s
   \<and> tasks (snd (resume j x e t s)) = tasks s
   \<and> fst (resume j x e t s) \<noteq> Some AwaitImport"
  by (cases t) (simp_all add: afterImport_frame afterOpen_frame afterLock_frame)

lemma step_Settle_Fulfilled:
  assumes "i < length (tasks s)"
  shows "step j x e (Settle i Fulfilled) s =
           (snd (resume j x e (tasks s ! i) s))
             \<lparr>tasks := (case fst (resume j x e (tasks s ! i) s) of
                          None \<Rightarrow> dropTask i (tasks s)
                        | Some t \<Rightarrow> (tasks s)[i := t])\<rparr>"
proof -
  obtain r s' where rs: "resume j x e (tasks s ! i) s = (r, s')"
    by force
  have "tasks s' = tasks s"
    using resume_frame [of j x e "tasks s ! i" s] rs by simp
  with assms rs show ?thesis
    by (cases r) (simp_all add: step_def)
qed

lemma lifecycle_of:
  "isCreateElement a \<Longrightarrow> isLifecycle a"
  "isOpenBookStart a \<Longrightarrow> isLifecycle a"
  "isOpenCalled a \<Longrightarrow> isLifecycle a"
  by (cases a; simp)+

lemma filter_quiet:
  assumes "list_all (\<lambda>a. \<not> isLifecycle a) acts"
  shows "filter isCreateElement acts = []" and "filter isOpenBookStart acts = []"
    and "filter isOpenCalled acts = []"
  using assms by (auto simp: filter_empty_conv list_all_iff dest: lifecycle_of)

lemma resume_counts:
  "length (filter isOpenBookStart (trace (snd (resume j x e t s))))
     = length (filter isOpenBookStart (trace s))"
  "length (filter isCreateElement (trace (snd (resume j x e t s))))
     = length (filter isCreateElement (trace s)) + (if t = AwaitImport then 1 else 0)"
  "length (filter isOpenCalled (trace (snd (resume j x e t s))))
     \<le> length (filter isOpenCalled (trace s)) + (if t = AwaitImport then 1 else 0)"
proof -
  show "length (filter isOpenBookStart (trace (snd (resume j x e t s))))
     = length (filter isOpenBookStart (trace s))"
  proof (cases t)
    case AwaitImport
    then show ?thesis
      using afterImport_trace [of j x e s] by (auto simp: filter_quiet)
  next
    case (AwaitOpen v w h vs)
    then show ?thesis
      using afterOpen_trace [of j x e v w h vs s] by (auto simp: filter_quiet)
  next
    case (AwaitLock v vs m)
    then show ?thesis
      using afterLock_trace [of j e v vs m s] by (auto simp: filter_quiet)
  next
    case (AwaitNav v)
    then show ?thesis by simp
  qed
  show "length (filter isCreateElement (trace (snd (resume j x e t s))))
     = length (filter isCreateElement (trace s)) + (if t = AwaitImport then 1 else 0)"
  proof (cases t)
    case AwaitImport
    then show ?thesis
      using afterImport_trace [of j x e s] by (auto simp: filter_quiet)
  next
    case (AwaitOpen v w h vs)
    then show ?thesis
      using afterOpen_trace [of j x e v w h vs s] by (auto simp: filter_quiet)
  next
    case (AwaitLock v vs m)
    then show ?thesis
      using afterLock_trace [of j e v vs m s] by (auto simp: filter_quiet)
  next
    case (AwaitNav v)
    then show ?thesis by simp
  qed
  show "length (filter isOpenCalled (trace (snd (resume j x e t s))))
     \<le> length (filter isOpenCalled (trace s)) + (if t = AwaitImport then 1 else 0)"
  proof (cases t)
    case AwaitImport
    then show ?thesis
      using afterImport_trace [of j x e s] by (auto simp: filter_quiet)
  next
    case (AwaitOpen v w h vs)
    then show ?thesis
      using afterOpen_trace [of j x e v w h vs s] by (auto simp: filter_quiet)
  next
    case (AwaitLock v vs m)
    then show ?thesis
      using afterLock_trace [of j e v vs m s] by (auto simp: filter_quiet)
  next
    case (AwaitNav v)
    then show ?thesis by simp
  qed
qed

lemma run0:
  "run js0 externals0 env0
     [MountEffect, MountEffect, Settle 0 Fulfilled, MountEffect, Settle 0 Fulfilled] app0
   = \<lparr>isViewCreated = True, viewRef = Some 0, tasks = [AwaitNav 0], nextRef = 1,
      renderers = [0 \<mapsto> \<lparr>has_setStyles = True, has_goTo = True\<rparr>],
      views = [''A'' \<mapsto> 0], settingsStore = [''A'' \<mapsto> settings0], parallels = Map.empty,
      bookDoc_dir = Some ''rtl'', containerRect = Some (800, 600), innerWidth = 1024,
      innerHeight = 768,
      trace = [ConsoleLog [Str ''Opening book'', Str ''A''], ImportViewModule,
               CreateElement 0, SetId 0 ''foliate-view-A'', AppendToBody 0,
               AppendToContainer 0, OpenCalled 0, OpenResolved 0, SetViewRef 0,
               SetFoliateView ''A'' 0, AddLoadListener 0 False, AddDataListener 0 800 600,
               CallGetStyles (Some settings0), SetStyles 0 ''p{}'',
               SetAttribute 0 ''animated'' [], SetAttribute 0 ''max-column-count'' ''2'',
               SetAttribute 0 ''max-inline-size'' ''720px'',
               SetAttribute 0 ''max-block-size'' ''1440px'',
               SetAttribute 0 ''margin'' ''54px'', SetAttribute 0 ''gap'' ''5%'',
               SetAttribute 0 ''flow'' ''scrolled'', GoToFraction 0 0]\<rparr>"
  by (simp add: run_def step_def mountEffect_def emit_def app0_def mounted_def env0_def
        externals0_def afterImport_def afterOpen_def afterLock_def applyStyles_def
        applyMarginAndGap_def orElse_def Let_def settings0_def decimal_def js0_def dropTask_def)

lemma step_constructedOnce:
  assumes inv: "constructedOnce s"
  shows "constructedOnce (step j x e ev s)"
proof (cases ev)
  case MountEffect
  with inv show ?thesis
    by (auto simp: step_def mountEffect_def emit_def constructedOnce_def split: if_splits)
next
  case (SettingsWrite k v)
  with inv show ?thesis
    by (simp add: step_def constructedOnce_def)
next
  case (Layout rect w h)
  with inv show ?thesis
    by (simp add: step_def constructedOnce_def)
next
  case (Settle i r)
  show ?thesis
  proof (cases "i < length (tasks s)")
    case False
    with Settle inv show ?thesis by (simp add: step_def)
  next
    case True
    from inv have "length (tasks s) \<le> 1"
      by (auto simp: constructedOnce_def split: if_splits)
    with True obtain t where ts: "tasks s = [t]" and i0: "i = 0"
      by (cases "tasks s") auto
    show ?thesis
    proof (cases r)
      case (Rejected ex)
      with Settle inv ts i0 show ?thesis
        by (auto simp: step_def emit_def constructedOnce_def dropTask_def split: if_splits)
    next
      case Fulfilled
      have st: "step j x e ev s =
           (snd (resume j x e t s))
             \<lparr>tasks := (case fst (resume j x e t s) of None \<Rightarrow> [] | Some t' \<Rightarrow> [t'])\<rparr>"
        using step_Settle_Fulfilled [OF True, of j x e] Settle Fulfilled ts i0
        by (simp add: dropTask_def split: option.split)
      have pend: "filter (\<lambda>t. t = AwaitImport)
            (case fst (resume j x e t s) of None \<Rightarrow> [] | Some t' \<Rightarrow> [t']) = []"
        using resume_frame [of j x e t s] by (auto split: option.split)
      have len: "length (case fst (resume j x e t s) of None \<Rightarrow> [] | Some t' \<Rightarrow> [t']) \<le> 1"
        by (simp split: option.split)
      from inv ts show ?thesis
        unfolding st constructedOnce_def
        using resume_counts [of j x e t s] resume_frame [of j x e t s] pend len
        by (auto split: if_splits)
    qed
  qed
qed

lemma run_constructedOnce: "constructedOnce s \<Longrightarrow> constructedOnce (run j x e evs s)"
  unfolding run_def by (induction evs arbitrary: s) (simp_all add: step_constructedOnce)

lemma mounted_constructedOnce: "constructedOnce (mounted n rs vws sets pars dir rect iw ih)"
  by (simp add: constructedOnce_def mounted_def)

text \<open>
  Claim C1. Whatever happens to a mounted component, in whatever order (the mount effect
  run any number of times, awaited promises fulfilled or rejected, the settings store
  written), for every book key and every state of the stores: \<^verbatim>\<open>openBook\<close> is started
  at most once, at most one \<^verbatim>\<open>foliate-view\<close> element is created, and
  \<^verbatim>\<open>view.open\<close> is called at most once. The latch \<open>isViewCreated\<close> is read and set
  in the mount effect itself, before \<^verbatim>\<open>openBook\<close> is called.
\<close>

theorem widget_constructed_at_most_once:
  "length (filter isOpenBookStart (trace (run j x e evs (mounted n rs vws sets pars dir rect iw ih)))) \<le> 1
   \<and> length (filter isCreateElement (trace (run j x e evs (mounted n rs vws sets pars dir rect iw ih)))) \<le> 1
   \<and> length (filter isOpenCalled (trace (run j x e evs (mounted n rs vws sets pars dir rect iw ih)))) \<le> 1"
  using run_constructedOnce
      [OF mounted_constructedOnce [of n rs vws sets pars dir rect iw ih], of j x e evs]
  by (auto simp: constructedOnce_def split: if_splits)

theorem widget_constructed_at_most_once_witness:
  "length (filter isCreateElement (trace (run js0 externals0 env0
      [MountEffect, MountEffect, Settle 0 Fulfilled, MountEffect, Settle 0 Fulfilled] app0)))
     = 1
   \<and> length (filter isOpenBookStart (trace (run js0 externals0 env0
      [MountEffect, MountEffect, Settle 0 Fulfilled, MountEffect, Settle 0 Fulfilled] app0)))
     = 1"
  using widget_constructed_at_most_once [where j = js0 and x = externals0 and e = env0
      and evs = "[MountEffect, MountEffect, Settle 0 Fulfilled, MountEffect, Settle 0 Fulfilled]"
      and n = 0 and rs = Map.empty and vws = Map.empty and sets = "[''A'' \<mapsto> settings0]"
      and pars = Map.empty and dir = None and rect = "Some (800, 600)" and iw = 1024
      and ih = 768]
  by (simp add: run0 app0_def [symmetric])

lemma pao_append:
  "publishedAfterOpen S (xs @ ys) \<longleftrightarrow>
     publishedAfterOpen S xs \<and> publishedAfterOpen (S \<union> {r. OpenResolved r \<in> set xs}) ys"
proof (induction xs arbitrary: S)
  case Nil
  then show ?case by simp
next
  case (Cons a xs)
  show ?case
  proof (cases a)
    case (OpenResolved v)
    have "insert v S \<union> {r. OpenResolved r \<in> set xs}
        = S \<union> {r. OpenResolved r \<in> set (a # xs)}"
      using OpenResolved by auto
    with Cons [of "insert v S"] OpenResolved show ?thesis by simp
  qed (use Cons [of S] in simp_all)
qed

lemma pao_quiet:
  "list_all (\<lambda>a. \<not> isLifecycle a) acts \<Longrightarrow> publishedAfterOpen S acts"
proof (induction acts)
  case Nil
  then show ?case by simp
next
  case (Cons a acts)
  then show ?case by (cases a) simp_all
qed

lemma pao_decompose:
  assumes "publishedAfterOpen S tr" and "tr = pre @ a # post"
    and "a = SetViewRef r \<or> a = SetFoliateView k r"
  shows "r \<in> S \<or> OpenResolved r \<in> set pre"
  using assms by (auto simp: pao_append)

lemma resume_publishedOpened:
  assumes inv: "publishedOpened vws (bookKey e) s"
  shows "publishedOpened vws (bookKey e) (snd (resume j x e t s))"
proof (cases t)
  case AwaitImport
  obtain acts opens where tr: "trace (snd (afterImport j x e s))
            = trace s @ CreateElement (nextRef s) # acts @ opens"
      and q: "list_all (\<lambda>a. \<not> isLifecycle a) acts"
      and o: "opens = [] \<or> opens = [OpenCalled (nextRef s)]"
    using afterImport_trace [of j x e s] by blast
  have "publishedAfterOpen T (CreateElement (nextRef s) # acts @ opens)" for T
    using q o by (auto simp: pao_append pao_quiet)
  with inv AwaitImport tr afterImport_frame [of j x e s] show ?thesis
    by (auto simp: publishedOpened_def pao_append)
next
  case (AwaitOpen v w h vs)
  obtain acts where tr: "trace (snd (afterOpen j x e v w h vs s))
            = trace s @ [OpenResolved v, SetViewRef v, SetFoliateView (bookKey e) v] @ acts"
      and q: "list_all (\<lambda>a. \<not> isLifecycle a) acts"
    using afterOpen_trace [of j x e v w h vs s] by blast
  have "publishedAfterOpen T
      ([OpenResolved v, SetViewRef v, SetFoliateView (bookKey e) v] @ acts)" for T
    using q by (simp add: pao_quiet)
  with inv AwaitOpen tr afterOpen_frame [of j x e v w h vs s] show ?thesis
    by (auto simp: publishedOpened_def pao_append)
next
  case (AwaitLock v vs m)
  obtain acts where tr: "trace (snd (afterLock j e v vs m s)) = trace s @ acts"
      and q: "list_all (\<lambda>a. \<not> isLifecycle a) acts"
    using afterLock_trace [of j e v vs m s] by blast
  with inv AwaitLock afterLock_frame [of j e v vs m s] show ?thesis
    by (auto simp: publishedOpened_def pao_append pao_quiet)
next
  case (AwaitNav v)
  with inv show ?thesis by simp
qed

lemma step_publishedOpened:
  assumes inv: "publishedOpened vws (bookKey e) s"
  shows "publishedOpened vws (bookKey e) (step j x e ev s)"
proof (cases ev)
  case MountEffect
  with inv show ?thesis
    by (auto simp: step_def mountEffect_def emit_def publishedOpened_def pao_append)
next
  case (SettingsWrite k v)
  with inv show ?thesis
    by (simp add: step_def publishedOpened_def)
next
  case (Layout rect w h)
  with inv show ?thesis
    by (simp add: step_def publishedOpened_def)
next
  case (Settle i r)
  show ?thesis
  proof (cases "i < length (tasks s)")
    case False
    with Settle inv show ?thesis by (simp add: step_def)
  next
    case True
    show ?thesis
    proof (cases r)
      case (Rejected ex)
      with Settle inv True show ?thesis
        by (auto simp: step_def emit_def publishedOpened_def pao_append)
    next
      case Fulfilled
      have "publishedOpened vws (bookKey e) (snd (resume j x e (tasks s ! i) s))"
        using inv by (rule resume_publishedOpened)
      then show ?thesis
        using Settle Fulfilled step_Settle_Fulfilled [OF True, of j x e]
        by (simp add: publishedOpened_def)
    qed
  qed
qed

lemma run_publishedOpened:
  "publishedOpened vws (bookKey e) s \<Longrightarrow> publishedOpened vws (bookKey e) (run j x e evs s)"
  unfolding run_def by (induction evs arbitrary: s) (simp_all add: step_publishedOpened)

lemma mounted_publishedOpened:
  "publishedOpened vws key (mounted n rs vws sets pars dir rect iw ih)"
  by (simp add: publishedOpened_def mounted_def)

text \<open>
  Claim C5. In every state \<open>s'\<close> that a mounted component can reach: an assignment of a
  view to \<^verbatim>\<open>viewRef.current\<close> and a call of \<^verbatim>\<open>setFoliateView\<close> with a view come
  after the moment the \<^verbatim>\<open>open\<close> of that view resolved; \<^verbatim>\<open>viewRef.current\<close>, when
  set, is a view whose \<^verbatim>\<open>open\<close> has resolved; and an entry of the view registry is
  the entry that was there when the component was mounted, or it is under the book key
  and is a view whose \<^verbatim>\<open>open\<close> has resolved.
\<close>

theorem published_only_after_open:
  assumes "s' = run j x e evs (mounted n rs vws sets pars dir rect iw ih)"
  shows "(trace s' = pre @ SetViewRef r # post \<longrightarrow> OpenResolved r \<in> set pre)
       \<and> (trace s' = pre @ SetFoliateView k r # post \<longrightarrow> OpenResolved r \<in> set pre)
       \<and> (viewRef s' = Some r \<longrightarrow> OpenResolved r \<in> set (trace s'))
       \<and> (views s' k = Some r \<longrightarrow>
            vws k = Some r \<or> (k = bookKey e \<and> OpenResolved r \<in> set (trace s')))"
proof -
  have inv: "publishedOpened vws (bookKey e) s'"
    unfolding assms by (rule run_publishedOpened) (rule mounted_publishedOpened)
  then have pao: "publishedAfterOpen {} (trace s')"
    by (simp add: publishedOpened_def)
  have "OpenResolved r \<in> set pre" if "trace s' = pre @ SetViewRef r # post"
    using pao_decompose [OF pao that, of r k] by simp
  moreover have "OpenResolved r \<in> set pre" if "trace s' = pre @ SetFoliateView k r # post"
    using pao_decompose [OF pao that, of r k] by simp
  ultimately show ?thesis
    using inv by (auto simp: publishedOpened_def)
qed

theorem published_only_after_open_witness:
  "viewRef (run js0 externals0 env0
      [MountEffect, MountEffect, Settle 0 Fulfilled, MountEffect, Settle 0 Fulfilled] app0)
     = Some 0
   \<and> views (run js0 externals0 env0
      [MountEffect, MountEffect, Settle 0 Fulfilled, MountEffect, Settle 0 Fulfilled] app0) ''A''
     = Some 0
   \<and> OpenResolved 0 \<in> set (trace (run js0 externals0 env0
      [MountEffect, MountEffect, Settle 0 Fulfilled, MountEffect, Settle 0 Fulfilled] app0))"
proof -
  have h: "run js0 externals0 env0
      [MountEffect, MountEffect, Settle 0 Fulfilled, MountEffect, Settle 0 Fulfilled] app0
    = run js0 externals0 env0
      [MountEffect, MountEffect, Settle 0 Fulfilled, MountEffect, Settle 0 Fulfilled]
      (mounted 0 Map.empty Map.empty [''A'' \<mapsto> settings0] Map.empty None (Some (800, 600))
         1024 768)"
    by (simp add: app0_def)
  have v: "viewRef (run js0 externals0 env0
      [MountEffect, MountEffect, Settle 0 Fulfilled, MountEffect, Settle 0 Fulfilled] app0)
     = Some 0"
    and w: "views (run js0 externals0 env0
      [MountEffect, MountEffect, Settle 0 Fulfilled, MountEffect, Settle 0 Fulfilled] app0) ''A''
     = Some 0"
    by (simp_all add: run0)
  from published_only_after_open [OF h, where r = 0 and k = "''A''"] v w
  show ?thesis by simp
qed

section \<open>The sizes given to the data listener\<close>

lemma run_snoc: "run j x e (evs @ [ev]) s = step j x e ev (run j x e evs s)"
  by (simp add: run_def)

lemma measuredAtOpen_snoc:
  assumes "measuredAtOpen j x e s0 evs v w h"
  shows "measuredAtOpen j x e s0 (evs @ [ev]) v w h"
proof -
  from assms obtain evs1 i evs2 where
    "evs = evs1 @ Settle i Fulfilled # evs2"
    "i < length (tasks (run j x e evs1 s0))"
    "tasks (run j x e evs1 s0) ! i = AwaitImport"
    "v = nextRef (run j x e evs1 s0)"
    "w = orElse j (map_option fst (containerRect (run j x e evs1 s0)))
           (innerWidth (run j x e evs1 s0))"
    "h = orElse j (map_option snd (containerRect (run j x e evs1 s0)))
           (innerHeight (run j x e evs1 s0))"
    unfolding measuredAtOpen_def by blast
  then show ?thesis
    unfolding measuredAtOpen_def
    by (intro exI [of _ evs1] exI [of _ i] exI [of _ "evs2 @ [ev]"]) simp
qed

lemma measuredAtOpen_now:
  assumes "i < length (tasks (run j x e evs s0))"
    and "tasks (run j x e evs s0) ! i = AwaitImport"
  shows "measuredAtOpen j x e s0 (evs @ [Settle i Fulfilled])
           (nextRef (run j x e evs s0))
           (orElse j (map_option fst (containerRect (run j x e evs s0)))
              (innerWidth (run j x e evs s0)))
           (orElse j (map_option snd (containerRect (run j x e evs s0)))
              (innerHeight (run j x e evs s0)))"
  unfolding measuredAtOpen_def
  using assms by (intro exI [of _ evs] exI [of _ i] exI [of _ "[]"]) simp

lemma applyStyles_noListener:
  "AddDataListener v w h \<notin> set (fst (applyStyles x v' rend vso))"
  using applyStyles_writes [of x v' rend vso] by (auto simp: list_all_iff)

lemma applyMarginAndGap_noListener:
  "AddDataListener v w h \<notin> set (fst (applyMarginAndGap j key pad s))"
  using applyMarginAndGap_writes [of j key pad s] by (auto simp: list_all_iff)

lemma afterLock_listeners:
  "AddDataListener v' w' h' \<in> set (trace (snd (afterLock j e v vs m s)))
     \<longleftrightarrow> AddDataListener v' w' h' \<in> set (trace s)"
proof -
  define s1 where "s1 = emit [if animated vs then SetAttribute v ''animated'' ''''
                     else RemoveAttribute v ''animated'',
                     SetAttribute v ''max-column-count'' (js_toString j (maxColumnCount vs)),
                     SetAttribute v ''max-inline-size'' (js_toString j m @ ''px''),
                     SetAttribute v ''max-block-size''
                       (js_toString j (maxBlockSize vs) @ ''px'')] s"
  obtain acts r where mg: "applyMarginAndGap j (bookKey e) (mount_padding e) s1 = (acts, r)"
    by force
  have q: "AddDataListener v' w' h' \<notin> set acts"
    using applyMarginAndGap_noListener [of v' w' h' j "bookKey e" "mount_padding e" s1] mg
    by simp
  show ?thesis
    using mg q unfolding afterLock_def Let_def s1_def [symmetric]
    by (cases r) (auto simp: s1_def emit_def)
qed

lemma afterLock_task: "fst (afterLock j e v vs m s) \<noteq> Some (AwaitOpen v' w' h' vs')"
  by (simp add: afterLock_def Let_def split: prod.split option.split)

lemma afterOpen_task: "fst (afterOpen j x e v w h vs s) \<noteq> Some (AwaitOpen v' w' h' vs')"
  by (simp add: afterOpen_def Let_def afterLock_task split: prod.split option.split)

lemma afterOpen_listeners:
  assumes "AddDataListener v' w' h' \<in> set (trace (snd (afterOpen j x e v w h vs s)))"
  shows "AddDataListener v' w' h' \<in> set (trace s) \<or> (v' = v \<and> w' = w \<and> h' = h)"
proof -
  obtain acts r where st: "applyStyles x v (bookRenderer e) (Some vs) = (acts, r)"
    by force
  have q: "AddDataListener v' w' h' \<notin> set acts"
    using applyStyles_noListener [of v' w' h' x v "bookRenderer e" "Some vs"] st by simp
  show ?thesis
  proof (cases r)
    case (Some ex)
    with st q assms show ?thesis
      by (auto simp: afterOpen_def Let_def emit_def split: if_splits)
  next
    case None
    show ?thesis
    proof (cases "isMobileApp e")
      case True
      with None st q assms show ?thesis
        by (auto simp: afterOpen_def Let_def emit_def split: if_splits)
    next
      case False
      with None st q assms show ?thesis
        by (auto simp: afterOpen_def Let_def emit_def afterLock_listeners split: if_splits)
    qed
  qed
qed

lemma afterImport_listeners:
  "AddDataListener v' w' h' \<in> set (trace (snd (afterImport j x e s)))
     \<longleftrightarrow> AddDataListener v' w' h' \<in> set (trace s)"
  by (auto simp: afterImport_def Let_def emit_def split: option.split)

lemma afterImport_task:
  assumes "fst (afterImport j x e s) = Some (AwaitOpen v w h vs)"
  shows "v = nextRef s
       \<and> w = orElse j (map_option fst (containerRect s)) (innerWidth s)
       \<and> h = orElse j (map_option snd (containerRect s)) (innerHeight s)"
  using assms by (simp add: afterImport_def Let_def emit_def split: option.splits)

lemma resume_listeners:
  assumes "AddDataListener v w h \<in> set (trace (snd (resume j x e t s)))"
  shows "AddDataListener v w h \<in> set (trace s) \<or> (\<exists>vs. t = AwaitOpen v w h vs)"
proof (cases t)
  case AwaitImport
  with assms show ?thesis by (simp add: afterImport_listeners)
next
  case (AwaitOpen v' w' h' vs)
  with assms afterOpen_listeners [of v w h j x e v' w' h' vs s] show ?thesis by auto
next
  case (AwaitLock v' vs m)
  with assms show ?thesis by (simp add: afterLock_listeners)
next
  case (AwaitNav v')
  with assms show ?thesis by simp
qed

lemma resume_task:
  assumes "fst (resume j x e t s) = Some (AwaitOpen v w h vs)"
  shows "t = AwaitImport \<and> v = nextRef s
       \<and> w = orElse j (map_option fst (containerRect s)) (innerWidth s)
       \<and> h = orElse j (map_option snd (containerRect s)) (innerHeight s)"
proof (cases t)
  case AwaitImport
  with assms afterImport_task [of j x e s v w h vs] show ?thesis by simp
next
  case (AwaitOpen v' w' h' vs')
  with assms show ?thesis by (simp add: afterOpen_task)
next
  case (AwaitLock v' vs' m)
  with assms show ?thesis by (simp add: afterLock_task)
next
  case (AwaitNav v')
  with assms show ?thesis by simp
qed

lemma set_dropTask: "set (dropTask i ts) \<subseteq> set ts"
  unfolding dropTask_def using set_take_subset [of i ts] set_drop_subset [of "Suc i" ts]
  by auto

lemma step_sizesMeasured:
  assumes inv: "sizesMeasured j x e s0 evs s" and s: "s = run j x e evs s0"
  shows "sizesMeasured j x e s0 (evs @ [ev]) (step j x e ev s)"
proof -
  have old_task: "measuredAtOpen j x e s0 (evs @ [ev]) v w h"
    if "AwaitOpen v w h vs \<in> set (tasks s)" for v w h vs
  proof -
    from inv that have "measuredAtOpen j x e s0 evs v w h"
      unfolding sizesMeasured_def by blast
    then show ?thesis by (rule measuredAtOpen_snoc)
  qed
  have old_listener: "measuredAtOpen j x e s0 (evs @ [ev]) v w h"
    if "AddDataListener v w h \<in> set (trace s)" for v w h
  proof -
    from inv that have "measuredAtOpen j x e s0 evs v w h"
      unfolding sizesMeasured_def by blast
    then show ?thesis by (rule measuredAtOpen_snoc)
  qed
  show ?thesis
  proof (cases ev)
    case MountEffect
    then show ?thesis
      using old_task old_listener
      by (auto simp: sizesMeasured_def step_def mountEffect_def emit_def)
  next
    case (SettingsWrite k v)
    then show ?thesis
      using old_task old_listener by (auto simp: sizesMeasured_def step_def)
  next
    case (Layout rect w h)
    then show ?thesis
      using old_task old_listener by (auto simp: sizesMeasured_def step_def)
  next
    case (Settle i r)
    show ?thesis
    proof (cases "i < length (tasks s)")
      case False
      with Settle show ?thesis
        using old_task old_listener by (auto simp: sizesMeasured_def step_def)
    next
      case True
      show ?thesis
      proof (cases r)
        case (Rejected ex)
        with Settle True show ?thesis
          using old_task old_listener set_dropTask [of i "tasks s"]
          by (auto simp: sizesMeasured_def step_def emit_def)
      next
        case Fulfilled
        define t where "t = tasks s ! i"
        have tmem: "t \<in> set (tasks s)"
          using True by (simp add: t_def)
        have st: "step j x e ev s =
           (snd (resume j x e t s))
             \<lparr>tasks := (case fst (resume j x e t s) of
                          None \<Rightarrow> dropTask i (tasks s)
                        | Some t' \<Rightarrow> (tasks s)[i := t'])\<rparr>"
          using step_Settle_Fulfilled [OF True, of j x e] Settle Fulfilled
          by (simp add: t_def)
        have new_task: "measuredAtOpen j x e s0 (evs @ [ev]) v w h"
          if "fst (resume j x e t s) = Some (AwaitOpen v w h vs)" for v w h vs
        proof -
          from resume_task [OF that] have "t = AwaitImport" and "v = nextRef s"
            and "w = orElse j (map_option fst (containerRect s)) (innerWidth s)"
            and "h = orElse j (map_option snd (containerRect s)) (innerHeight s)"
            by simp_all
          then show ?thesis
            using measuredAtOpen_now [of i j x e evs s0] True Settle Fulfilled
            by (simp add: s t_def)
        qed
        have tasks_ok: "measuredAtOpen j x e s0 (evs @ [ev]) v w h"
          if "AwaitOpen v w h vs \<in> set (tasks (step j x e ev s))" for v w h vs
        proof (cases "fst (resume j x e t s)")
          case None
          with that have "AwaitOpen v w h vs \<in> set (dropTask i (tasks s))"
            by (simp add: st)
          with set_dropTask [of i "tasks s"] show ?thesis
            using old_task by blast
        next
          case (Some t')
          with that have "AwaitOpen v w h vs \<in> set ((tasks s)[i := t'])"
            by (simp add: st)
          with set_update_subset_insert [of "tasks s" i t']
          have "AwaitOpen v w h vs = t' \<or> AwaitOpen v w h vs \<in> set (tasks s)"
            by auto
          then show ?thesis
            using Some new_task old_task by auto
        qed
        have listeners_ok: "measuredAtOpen j x e s0 (evs @ [ev]) v w h"
          if "AddDataListener v w h \<in> set (trace (step j x e ev s))" for v w h
        proof -
          from that have "AddDataListener v w h \<in> set (trace (snd (resume j x e t s)))"
            by (simp add: st)
          from resume_listeners [OF this]
          show ?thesis
            using old_listener old_task tmem by auto
        qed
        show ?thesis
          unfolding sizesMeasured_def using tasks_ok listeners_ok by blast
      qed
    qed
  qed
qed

lemma run_sizesMeasured:
  "sizesMeasured j x e (mounted n rs vws sets pars dir rect iw ih) evs
     (run j x e evs (mounted n rs vws sets pars dir rect iw ih))"
proof (induction evs rule: rev_induct)
  case Nil
  show ?case by (simp add: sizesMeasured_def run_def mounted_def)
next
  case (snoc ev evs)
  from step_sizesMeasured [OF snoc refl, of ev] show ?case
    by (simp add: run_snoc)
qed

lemma run1:
  "run js0 externals0 env0
     [MountEffect, Settle 0 Fulfilled, Layout (Some (1000, 700)) 1280 1024, Settle 0 Fulfilled]
     app0
   = \<lparr>isViewCreated = True, viewRef = Some 0, tasks = [AwaitNav 0], nextRef = 1,
      renderers = [0 \<mapsto> \<lparr>has_setStyles = True, has_goTo = True\<rparr>],
      views = [''A'' \<mapsto> 0], settingsStore = [''A'' \<mapsto> settings0], parallels = Map.empty,
      bookDoc_dir = Some ''rtl'', containerRect = Some (1000, 700), innerWidth = 1280,
      innerHeight = 1024,
      trace = [ConsoleLog [Str ''Opening book'', Str ''A''], ImportViewModule,
               CreateElement 0, SetId 0 ''foliate-view-A'', AppendToBody 0,
               AppendToContainer 0, OpenCalled 0, OpenResolved 0, SetViewRef 0,
               SetFoliateView ''A'' 0, AddLoadListener 0 False, AddDataListener 0 800 600,
               CallGetStyles (Some settings0), SetStyles 0 ''p{}'',
               SetAttribute 0 ''animated'' [], SetAttribute 0 ''max-column-count'' ''2'',
               SetAttribute 0 ''max-inline-size'' ''720px'',
               SetAttribute 0 ''max-block-size'' ''1440px'',
               SetAttribute 0 ''margin'' ''54px'', SetAttribute 0 ''gap'' ''5%'',
               SetAttribute 0 ''flow'' ''scrolled'', GoToFraction 0 0]\<rparr>"
  by (simp add: run_def step_def mountEffect_def emit_def app0_def mounted_def env0_def
        externals0_def afterImport_def afterOpen_def afterLock_def applyStyles_def
        applyMarginAndGap_def orElse_def Let_def settings0_def decimal_def js0_def dropTask_def)

text \<open>
  Claim C8, as amended. For a content payload \<open>dat\<close>: when the settings store has an
  entry for the book key, a \<^verbatim>\<open>text/css\<close> payload is given to the stylesheet transform
  with these settings and the width and height of the listener, and an
  \<^verbatim>\<open>application/xhtml+xml\<close> payload to the content pipeline with the book key, the
  settings, the content and the transformers punctuation and footnote; what is
  delivered is the transform's result (the empty string and a diagnostic if it fails).
  A payload of any other type is delivered as it is, and nothing else is done.
  The width and height of a listener are captured at open time: whatever happens to a
  mounted component, a data listener that it has added for a view \<open>v\<close> (line 213) has
  the width and the height that the call of \<^verbatim>\<open>openBook\<close> which created \<open>v\<close>
  measured when it went on after the import (lines 184 to 186), in the layout the page
  had at that moment (after the events \<open>evs1\<close>); the events since then (\<open>evs2\<close>),
  changes of the layout among them, have no part in them.
\<close>

theorem transform_dispatch:
  assumes "data detail = Inr dat"
  shows "(getViewSettings key = Some vs \<and> type detail = ''text/css'' \<longrightarrow>
            getDocTransformHandler x key width height getViewSettings detail =
              (case transformStylesheet x vs width height dat of
                 Inr r \<Rightarrow> ([CallTransformStylesheet vs width height dat], detail\<lparr>data := Inr r\<rparr>)
               | Inl e \<Rightarrow>
                   ([CallTransformStylesheet vs width height dat,
                     ConsoleError (''Failed to load '' @ name detail) e],
                    detail\<lparr>data := Inr ''''\<rparr>)))
       \<and> (getViewSettings key = Some vs \<and> type detail = ''application/xhtml+xml'' \<longrightarrow>
            getDocTransformHandler x key width height getViewSettings detail =
              (let ctx = \<lparr>ctx_bookKey = key, ctx_viewSettings = vs, content = dat,
                          transformers = [''punctuation'', ''footnote'']\<rparr>
               in case transformContent x ctx of
                    Inr r \<Rightarrow> ([CallTransformContent ctx], detail\<lparr>data := Inr r\<rparr>)
                  | Inl e \<Rightarrow>
                      ([CallTransformContent ctx,
                        ConsoleError (''Failed to load '' @ name detail) e],
                       detail\<lparr>data := Inr ''''\<rparr>)))
       \<and> (type detail \<noteq> ''text/css'' \<and> type detail \<noteq> ''application/xhtml+xml'' \<longrightarrow>
            getDocTransformHandler x key width height getViewSettings detail = ([], detail))
       \<and> (AddDataListener v w h
             \<in> set (trace (run j x env evs (mounted n rs vws sets pars dir rect iw ih))) \<longrightarrow>
            (\<exists>evs1 i evs2.
               evs = evs1 @ Settle i Fulfilled # evs2
               \<and> i < length (tasks (run j x env evs1 (mounted n rs vws sets pars dir rect iw ih)))
               \<and> tasks (run j x env evs1 (mounted n rs vws sets pars dir rect iw ih)) ! i
                   = AwaitImport
               \<and> v = nextRef (run j x env evs1 (mounted n rs vws sets pars dir rect iw ih))
               \<and> w = orElse j
                     (map_option fst
                        (containerRect
                           (run j x env evs1 (mounted n rs vws sets pars dir rect iw ih))))
                     (innerWidth (run j x env evs1 (mounted n rs vws sets pars dir rect iw ih)))
               \<and> h = orElse j
                     (map_option snd
                        (containerRect
                           (run j x env evs1 (mounted n rs vws sets pars dir rect iw ih))))
                     (innerHeight
                        (run j x env evs1 (mounted n rs vws sets pars dir rect iw ih)))))"
proof -
  have handler: "(getViewSettings key = Some vs \<and> type detail = ''text/css'' \<longrightarrow>
            getDocTransformHandler x key width height getViewSettings detail =
              (case transformStylesheet x vs width height dat of
                 Inr r \<Rightarrow> ([CallTransformStylesheet vs width height dat], detail\<lparr>data := Inr r\<rparr>)
               | Inl e \<Rightarrow>
                   ([CallTransformStylesheet vs width height dat,
                     ConsoleError (''Failed to load '' @ name detail) e],
                    detail\<lparr>data := Inr ''''\<rparr>)))
       \<and> (getViewSettings key = Some vs \<and> type detail = ''application/xhtml+xml'' \<longrightarrow>
            getDocTransformHandler x key width height getViewSettings detail =
              (let ctx = \<lparr>ctx_bookKey = key, ctx_viewSettings = vs, content = dat,
                          transformers = [''punctuation'', ''footnote'']\<rparr>
               in case transformContent x ctx of
                    Inr r \<Rightarrow> ([CallTransformContent ctx], detail\<lparr>data := Inr r\<rparr>)
                  | Inl e \<Rightarrow>
                      ([CallTransformContent ctx,
                        ConsoleError (''Failed to load '' @ name detail) e],
                       detail\<lparr>data := Inr ''''\<rparr>)))
       \<and> (type detail \<noteq> ''text/css'' \<and> type detail \<noteq> ''application/xhtml+xml'' \<longrightarrow>
            getDocTransformHandler x key width height getViewSettings detail = ([], detail))"
    using assms
    by (auto simp: getDocTransformHandler_def transformData_def Let_def
             split: sum.splits option.splits)
  have sizes: "measuredAtOpen j x env (mounted n rs vws sets pars dir rect iw ih) evs v w h"
    if "AddDataListener v w h
          \<in> set (trace (run j x env evs (mounted n rs vws sets pars dir rect iw ih)))"
    using run_sizesMeasured [of j x env n rs vws sets pars dir rect iw ih evs] that
    unfolding sizesMeasured_def by blast
  show ?thesis
    using handler sizes unfolding measuredAtOpen_def by blast
qed

theorem transform_dispatch_witness:
  "data \<lparr>data = Inr ''a{}'', type = ''text/css'', name = ''s.css''\<rparr> = Inr ''a{}''
   \<and> [''A'' \<mapsto> settings0] ''A'' = Some settings0
   \<and> getDocTransformHandler externals0 ''A'' 800 600 [''A'' \<mapsto> settings0]
        \<lparr>data = Inr ''a{}'', type = ''text/css'', name = ''s.css''\<rparr>
      = ([CallTransformStylesheet settings0 800 600 ''a{}''],
         \<lparr>data = Inr ''a{}/*800*/'', type = ''text/css'', name = ''s.css''\<rparr>)
   \<and> AddDataListener 0 800 600 \<in> set (trace (run js0 externals0 env0
        [MountEffect, Settle 0 Fulfilled, Layout (Some (1000, 700)) 1280 1024,
         Settle 0 Fulfilled] app0))
   \<and> containerRect (run js0 externals0 env0
        [MountEffect, Settle 0 Fulfilled, Layout (Some (1000, 700)) 1280 1024,
         Settle 0 Fulfilled] app0) = Some (1000, 700)
   \<and> measuredAtOpen js0 externals0 env0 app0
        [MountEffect, Settle 0 Fulfilled, Layout (Some (1000, 700)) 1280 1024,
         Settle 0 Fulfilled] 0 800 600"
proof -
  have h: "data \<lparr>data = Inr ''a{}'', type = ''text/css'', name = ''s.css''\<rparr> = Inr ''a{}''"
    by simp
  have l: "AddDataListener 0 800 600 \<in> set (trace (run js0 externals0 env0
        [MountEffect, Settle 0 Fulfilled, Layout (Some (1000, 700)) 1280 1024,
         Settle 0 Fulfilled] app0))"
    and c: "containerRect (run js0 externals0 env0
        [MountEffect, Settle 0 Fulfilled, Layout (Some (1000, 700)) 1280 1024,
         Settle 0 Fulfilled] app0) = Some (1000, 700)"
    by (simp_all add: run1)
  note t = transform_dispatch [OF h, where getViewSettings = "[''A'' \<mapsto> settings0]"
      and key = "''A''" and vs = settings0 and x = externals0 and width = 800 and height = 600
      and j = js0 and env = env0
      and evs = "[MountEffect, Settle 0 Fulfilled, Layout (Some (1000, 700)) 1280 1024,
         Settle 0 Fulfilled]"
      and n = 0 and rs = Map.empty and vws = Map.empty and sets = "[''A'' \<mapsto> settings0]"
      and pars = Map.empty and dir = None and rect = "Some (800, 600)" and iw = 1024
      and ih = 768 and v = 0 and w = 800 and h = 600, folded app0_def measuredAtOpen_def]
  from t l have m: "measuredAtOpen js0 externals0 env0 app0
        [MountEffect, Settle 0 Fulfilled, Layout (Some (1000, 700)) 1280 1024,
         Settle 0 Fulfilled] 0 800 600"
    by blast
  from t have "getDocTransformHandler externals0 ''A'' 800 600 [''A'' \<mapsto> settings0]
        \<lparr>data = Inr ''a{}'', type = ''text/css'', name = ''s.css''\<rparr>
      = ([CallTransformStylesheet settings0 800 600 ''a{}''],
         \<lparr>data = Inr ''a{}/*800*/'', type = ''text/css'', name = ''s.css''\<rparr>)"
    by (simp add: externals0_def decimal_def)
  with h l c m show ?thesis by simp
qed

text \<open>
  The claim without the amendment fails: with no settings for the book key, a stylesheet
  is delivered as it is and the stylesheet transform, which would have changed it, is
  not called.
\<close>

theorem stylesheet_without_settings_counterexample:
  "getDocTransformHandler externals0 ''A'' 800 600 Map.empty
        \<lparr>data = Inr ''a{}'', type = ''text/css'', name = ''s.css''\<rparr>
      = ([], \<lparr>data = Inr ''a{}'', type = ''text/css'', name = ''s.css''\<rparr>)
   \<and> transformStylesheet externals0 settings0 800 600 ''a{}'' = Inr ''a{}/*800*/''"
  by (simp add: getDocTransformHandler_def transformData_def externals0_def decimal_def js0_def)

end
